theory Spec2Isabelle
  imports Main
begin

section \<open>Data model\<close>

text \<open>
  The event, registration, attendance and QR-code tables of the relational store, as the
  services read and write them through the ORM. Times are milliseconds since the epoch
  (\<open>int\<close>); every service call reads the clock, and the model passes one reading
  \<open>now\<close> to each call. Identifiers and status values are strings, as in the source.
  A nullable column is an \<open>option\<close>.
\<close>

datatype category = PRAYER | LECTURE | COMMUNITY | EDUCATION | CHARITY | SOCIAL

record event =
  title :: string
  description :: string
  startDate :: int
  endDate :: int
  location :: string
  maxAttendees :: "int option"
  currentAttendees :: int
  category :: category
  imageUrl :: "string option"
  registrationRequired :: bool
  registrationDeadline :: "int option"
  isActive :: bool
  createdById :: string

record eventRegistration =
  registrationStatus :: string
  registrationDate :: int

record attendance =
  checkInTime :: "int option"
  checkOutTime :: "int option"
  attendanceStatus :: string
  attendanceNotes :: "string option"

record qRCode =
  qrCodeId :: nat
  qrEventId :: string
  qrData :: string
  qrType :: string
  expiresAt :: int
  qrIsActive :: bool
  createdAt :: int

text \<open>
  The store. Registrations and attendances have the composite key (eventId, userId).
  QR-code rows are kept in insertion order; \<open>users\<close> maps a user id to its role.
\<close>

record store =
  users :: "string \<rightharpoonup> string"
  events :: "string \<rightharpoonup> event"
  eventRegistrations :: "(string \<times> string) \<rightharpoonup> eventRegistration"
  attendances :: "(string \<times> string) \<rightharpoonup> attendance"
  qRCodes :: "qRCode list"

text \<open>The failures the services raise with \<open>createError\<close>, one constructor per message;
  the last two are the ORM's own failures inside a transaction (unique constraint,
  record to update or delete not found).\<close>

datatype error =
    EventNotFound
  | Forbidden
  | EventInactive
  | RegistrationNotRequired
  | EventAlreadyStarted
  | DeadlinePassed
  | AlreadyRegistered
  | CapacityExceeded
  | RegistrationNotFound
  | EventNotStarted
  | EventEnded
  | UserNotRegistered
  | RegistrationNotConfirmed
  | AlreadyCheckedIn
  | AttendanceNotFound
  | NotCheckedIn
  | AlreadyCheckedOut
  | InvalidFormat
  | EventMismatch
  | TokenNotFound
  | TokenExpired
  | NoActiveToken
  | UniqueConstraintFailed
  | RecordNotFound

text \<open>The data of an event update is the request body as it arrives: the eleven fields
  of \<open>UpdateEventDto\<close>, which the route validates, and any other column of the event that
  the body carries, which nothing checks or strips. Of those the row's counter and its
  creator are columns of this model. The body is taken to carry columns of the event only:
  neither the key \<open>id\<close> nor a write through one of the event's relations.\<close>

record updateEventDto =
  upd_title :: "string option"
  upd_description :: "string option"
  upd_startDate :: "int option"
  upd_endDate :: "int option"
  upd_location :: "string option"
  upd_maxAttendees :: "int option"
  upd_category :: "category option"
  upd_imageUrl :: "string option"
  upd_registrationRequired :: "bool option"
  upd_registrationDeadline :: "int option"
  upd_isActive :: "bool option"
  upd_currentAttendees :: "int option"
  upd_createdById :: "string option"

record checkInDto =
  dto_eventId :: string
  dto_userId :: string
  dto_notes :: "string option"

type_synonym checkOutDto = checkInDto

section \<open>Strings\<close>

text \<open>\<open>String.prototype.split\<close> with a one-character separator: the result is never
  empty, and the empty string splits into one empty segment.\<close>

fun split_on :: "char \<Rightarrow> string \<Rightarrow> string list" where
  "split_on c [] = [[]]"
| "split_on c (x # xs) =
     (if x = c then [] # split_on c xs
      else (case split_on c xs of [] \<Rightarrow> [[x]] | p # ps \<Rightarrow> (x # p) # ps))"

text \<open>A number in a template literal: its decimal digits, with a minus sign when negative.\<close>

definition digitChar :: "nat \<Rightarrow> char" where
  "digitChar d = char_of (48 + d)"

fun natDigits :: "nat \<Rightarrow> string" where
  "natDigits n = (if n < 10 then [digitChar n] else natDigits (n div 10) @ [digitChar (n mod 10)])"

declare natDigits.simps [simp del]

definition numberToString :: "int \<Rightarrow> string" where
  "numberToString i = (if i < 0 then CHR ''-'' # natDigits (nat (- i)) else natDigits (nat i))"

text \<open>\<open>a || b\<close> on optional strings: the empty string and a missing value are falsy.\<close>

definition jsOr :: "string option \<Rightarrow> string option \<Rightarrow> string option" where
  "jsOr a b = (case a of None \<Rightarrow> b | Some x \<Rightarrow> if x = [] then b else Some x)"

section \<open>Registration ledger (EventService)\<close>

text \<open>\<open>event.maxAttendees && event.currentAttendees >= event.maxAttendees\<close>: the guard
  is a truthiness test, so a capacity that is absent, or zero, never closes registration.\<close>

definition capacityReached :: "event \<Rightarrow> bool" where
  "capacityReached ev =
     (case maxAttendees ev of None \<Rightarrow> False | Some m \<Rightarrow> m \<noteq> 0 \<and> currentAttendees ev \<ge> m)"

text \<open>The two statements of the registration transaction. Either both commit or the
  transaction fails and the store is left as it was.\<close>

definition eventRegistration_create :: "store \<Rightarrow> int \<Rightarrow> string \<Rightarrow> string \<Rightarrow> error + store" where
  "eventRegistration_create s now eventId userId =
     (if eventRegistrations s (eventId, userId) \<noteq> None then Inl UniqueConstraintFailed
      else Inr (s\<lparr>eventRegistrations := (eventRegistrations s)((eventId, userId) \<mapsto>
                  \<lparr>registrationStatus = ''CONFIRMED'', registrationDate = now\<rparr>)\<rparr>))"

definition event_increment :: "store \<Rightarrow> string \<Rightarrow> int \<Rightarrow> error + store" where
  "event_increment s eventId k =
     (case events s eventId of
        None \<Rightarrow> Inl RecordNotFound
      | Some ev \<Rightarrow> Inr (s\<lparr>events := (events s)(eventId \<mapsto>
                         ev\<lparr>currentAttendees := currentAttendees ev + k\<rparr>)\<rparr>))"

definition registrationTx :: "store \<Rightarrow> int \<Rightarrow> string \<Rightarrow> string \<Rightarrow> error + store" where
  "registrationTx s now eventId userId =
     (case eventRegistration_create s now eventId userId of
        Inl e \<Rightarrow> Inl e
      | Inr s1 \<Rightarrow> event_increment s1 eventId 1)"

definition registerForEvent :: "store \<Rightarrow> int \<Rightarrow> string \<Rightarrow> string \<Rightarrow> error + store" where
  "registerForEvent s now eventId userId =
     (case events s eventId of
        None \<Rightarrow> Inl EventNotFound
      | Some ev \<Rightarrow>
          if \<not> isActive ev then Inl EventInactive
          else if \<not> registrationRequired ev then Inl RegistrationNotRequired
          else if startDate ev \<le> now then Inl EventAlreadyStarted
          else if (case registrationDeadline ev of None \<Rightarrow> False | Some d \<Rightarrow> d \<le> now)
            then Inl DeadlinePassed
          else if eventRegistrations s (eventId, userId) \<noteq> None then Inl AlreadyRegistered
          else if capacityReached ev then Inl CapacityExceeded
          else registrationTx s now eventId userId)"

text \<open>Cancellation: the registration is deleted and the counter decremented in one
  transaction; the decrement is unconditional.\<close>

definition eventRegistration_delete :: "store \<Rightarrow> string \<Rightarrow> string \<Rightarrow> error + store" where
  "eventRegistration_delete s eventId userId =
     (if eventRegistrations s (eventId, userId) = None then Inl RecordNotFound
      else Inr (s\<lparr>eventRegistrations := (eventRegistrations s)((eventId, userId) := None)\<rparr>))"

definition cancellationTx :: "store \<Rightarrow> string \<Rightarrow> string \<Rightarrow> error + store" where
  "cancellationTx s eventId userId =
     (case eventRegistration_delete s eventId userId of
        Inl e \<Rightarrow> Inl e
      | Inr s1 \<Rightarrow> event_increment s1 eventId (- 1))"

definition cancelRegistration :: "store \<Rightarrow> int \<Rightarrow> string \<Rightarrow> string \<Rightarrow> error + store" where
  "cancelRegistration s now eventId userId =
     (case eventRegistrations s (eventId, userId) of
        None \<Rightarrow> Inl RegistrationNotFound
      | Some registration \<Rightarrow>
          (case events s eventId of
             None \<Rightarrow> Inl EventNotFound
           | Some ev \<Rightarrow>
               if startDate ev \<le> now then Inl EventAlreadyStarted
               else cancellationTx s eventId userId))"

text \<open>Event update: after the permission checks the body is written to the row as it
  is (\<open>data: updateData\<close>); a column the body leaves out keeps its value.\<close>

definition applyUpdate :: "updateEventDto \<Rightarrow> event \<Rightarrow> event" where
  "applyUpdate d ev =
     ev\<lparr>title := (case upd_title d of None \<Rightarrow> title ev | Some v \<Rightarrow> v),
        description := (case upd_description d of None \<Rightarrow> description ev | Some v \<Rightarrow> v),
        startDate := (case upd_startDate d of None \<Rightarrow> startDate ev | Some v \<Rightarrow> v),
        endDate := (case upd_endDate d of None \<Rightarrow> endDate ev | Some v \<Rightarrow> v),
        location := (case upd_location d of None \<Rightarrow> location ev | Some v \<Rightarrow> v),
        maxAttendees := (case upd_maxAttendees d of None \<Rightarrow> maxAttendees ev | Some v \<Rightarrow> Some v),
        category := (case upd_category d of None \<Rightarrow> category ev | Some v \<Rightarrow> v),
        imageUrl := (case upd_imageUrl d of None \<Rightarrow> imageUrl ev | Some v \<Rightarrow> Some v),
        registrationRequired :=
          (case upd_registrationRequired d of None \<Rightarrow> registrationRequired ev | Some v \<Rightarrow> v),
        registrationDeadline :=
          (case upd_registrationDeadline d of None \<Rightarrow> registrationDeadline ev | Some v \<Rightarrow> Some v),
        isActive := (case upd_isActive d of None \<Rightarrow> isActive ev | Some v \<Rightarrow> v),
        currentAttendees :=
          (case upd_currentAttendees d of None \<Rightarrow> currentAttendees ev | Some v \<Rightarrow> v),
        createdById := (case upd_createdById d of None \<Rightarrow> createdById ev | Some v \<Rightarrow> v)\<rparr>"

definition updateEvent ::
  "store \<Rightarrow> string \<Rightarrow> updateEventDto \<Rightarrow> string \<Rightarrow> string \<Rightarrow> error + store" where
  "updateEvent s eid updateData currentUserId currentUserRole =
     (case events s eid of
        None \<Rightarrow> Inl EventNotFound
      | Some existingEvent \<Rightarrow>
          if currentUserRole = ''USER'' \<and> createdById existingEvent \<noteq> currentUserId
            then Inl Forbidden
          else if currentUserRole = ''SUBADMIN''
                  \<and> users s (createdById existingEvent) = Some ''ADMIN''
            then Inl Forbidden
          else Inr (s\<lparr>events := (events s)(eid \<mapsto> applyUpdate updateData existingEvent)\<rparr>))"

section \<open>Attendance (EventService and AttendanceService)\<close>

text \<open>A check-in writes \<open>checkInTime\<close> and the status \<open>CHECKED_IN\<close>, into the existing row
  or into a new one. The variants differ in what they do with the notes.\<close>

definition newAttendance :: "int \<Rightarrow> string option \<Rightarrow> attendance" where
  "newAttendance now n =
     \<lparr>checkInTime = Some now, checkOutTime = None, attendanceStatus = ''CHECKED_IN'',
      attendanceNotes = n\<rparr>"

text \<open>\<open>EventService.checkIn\<close>: only the existence of a registration is checked.\<close>

definition EventService_checkIn :: "store \<Rightarrow> int \<Rightarrow> checkInDto \<Rightarrow> error + store" where
  "EventService_checkIn s now d =
     (let eventId = dto_eventId d; userId = dto_userId d in
      case events s eventId of
        None \<Rightarrow> Inl EventNotFound
      | Some ev \<Rightarrow>
          if \<not> isActive ev then Inl EventInactive
          else if startDate ev > now then Inl EventNotStarted
          else if endDate ev < now then Inl EventEnded
          else if registrationRequired ev \<and> eventRegistrations s (eventId, userId) = None
            then Inl UserNotRegistered
          else
            (case attendances s (eventId, userId) of
               Some existingAttendance \<Rightarrow>
                 if checkInTime existingAttendance \<noteq> None then Inl AlreadyCheckedIn
                 else Inr (s\<lparr>attendances := (attendances s)((eventId, userId) \<mapsto>
                        existingAttendance\<lparr>checkInTime := Some now,
                          attendanceStatus := ''CHECKED_IN'',
                          attendanceNotes := (case dto_notes d of
                             None \<Rightarrow> attendanceNotes existingAttendance | Some v \<Rightarrow> Some v)\<rparr>)\<rparr>)
             | None \<Rightarrow>
                 Inr (s\<lparr>attendances := (attendances s)((eventId, userId) \<mapsto>
                        newAttendance now (dto_notes d))\<rparr>)))"

text \<open>The check-out of both services: the same checks and the same update.\<close>

definition checkOut :: "store \<Rightarrow> int \<Rightarrow> checkOutDto \<Rightarrow> error + store" where
  "checkOut s now d =
     (let eventId = dto_eventId d; userId = dto_userId d in
      case attendances s (eventId, userId) of
        None \<Rightarrow> Inl AttendanceNotFound
      | Some att \<Rightarrow>
          if checkInTime att = None then Inl NotCheckedIn
          else if checkOutTime att \<noteq> None then Inl AlreadyCheckedOut
          else Inr (s\<lparr>attendances := (attendances s)((eventId, userId) \<mapsto>
                 att\<lparr>checkOutTime := Some now, attendanceStatus := ''CHECKED_OUT'',
                     attendanceNotes := jsOr (dto_notes d) (attendanceNotes att)\<rparr>)\<rparr>))"

definition EventService_checkOut :: "store \<Rightarrow> int \<Rightarrow> checkOutDto \<Rightarrow> error + store" where
  "EventService_checkOut s now d = checkOut s now d"

definition AttendanceService_checkOut :: "store \<Rightarrow> int \<Rightarrow> checkOutDto \<Rightarrow> error + store" where
  "AttendanceService_checkOut s now d = checkOut s now d"

text \<open>\<open>EventService.markAttendance\<close> and \<open>AttendanceService.checkIn\<close>: a registration must
  exist and its status must be \<open>CONFIRMED\<close>. The methods of \<open>AttendanceService\<close> also take
  the caller's role and do not read it; the model leaves it out.\<close>

definition markAttendance :: "store \<Rightarrow> int \<Rightarrow> string \<Rightarrow> string \<Rightarrow> error + store" where
  "markAttendance s now eventId userId =
     (case events s eventId of
        None \<Rightarrow> Inl EventNotFound
      | Some ev \<Rightarrow>
          if \<not> isActive ev then Inl EventInactive
          else if startDate ev > now then Inl EventNotStarted
          else if endDate ev < now then Inl EventEnded
          else if registrationRequired ev \<and> eventRegistrations s (eventId, userId) = None
            then Inl UserNotRegistered
          else if registrationRequired ev \<and>
                  (case eventRegistrations s (eventId, userId) of
                     None \<Rightarrow> False | Some r \<Rightarrow> registrationStatus r \<noteq> ''CONFIRMED'')
            then Inl RegistrationNotConfirmed
          else
            (case attendances s (eventId, userId) of
               Some existingAttendance \<Rightarrow>
                 if checkInTime existingAttendance \<noteq> None then Inl AlreadyCheckedIn
                 else Inr (s\<lparr>attendances := (attendances s)((eventId, userId) \<mapsto>
                        existingAttendance\<lparr>checkInTime := Some now,
                          attendanceStatus := ''CHECKED_IN''\<rparr>)\<rparr>)
             | None \<Rightarrow>
                 Inr (s\<lparr>attendances := (attendances s)((eventId, userId) \<mapsto>
                        newAttendance now None)\<rparr>)))"

definition AttendanceService_checkIn :: "store \<Rightarrow> int \<Rightarrow> checkInDto \<Rightarrow> error + store" where
  "AttendanceService_checkIn s now d =
     (let eventId = dto_eventId d; userId = dto_userId d in
      case events s eventId of
        None \<Rightarrow> Inl EventNotFound
      | Some ev \<Rightarrow>
          if \<not> isActive ev then Inl EventInactive
          else if startDate ev > now then Inl EventNotStarted
          else if endDate ev < now then Inl EventEnded
          else if registrationRequired ev \<and> eventRegistrations s (eventId, userId) = None
            then Inl UserNotRegistered
          else if registrationRequired ev \<and>
                  (case eventRegistrations s (eventId, userId) of
                     None \<Rightarrow> False | Some r \<Rightarrow> registrationStatus r \<noteq> ''CONFIRMED'')
            then Inl RegistrationNotConfirmed
          else
            (case attendances s (eventId, userId) of
               Some existingAttendance \<Rightarrow>
                 if checkInTime existingAttendance \<noteq> None then Inl AlreadyCheckedIn
                 else Inr (s\<lparr>attendances := (attendances s)((eventId, userId) \<mapsto>
                        existingAttendance\<lparr>checkInTime := Some now,
                          attendanceStatus := ''CHECKED_IN'',
                          attendanceNotes :=
                            jsOr (dto_notes d) (attendanceNotes existingAttendance)\<rparr>)\<rparr>)
             | None \<Rightarrow>
                 Inr (s\<lparr>attendances := (attendances s)((eventId, userId) \<mapsto>
                        newAttendance now (dto_notes d))\<rparr>)))"

section \<open>QR token service (QRCodeService)\<close>

text \<open>What the service takes from its platform: two environment variables, the keyed
  hash \<open>createHmac('sha256', key).update(data).digest('hex')\<close>, \<open>encodeURIComponent\<close> and the
  QR image encoder. The library functions are parameters; nothing is assumed of them.\<close>

record platform =
  env_QR_SECRET :: "string option"
  env_FRONTEND_URL :: "string option"
  hmacSha256Hex :: "string \<Rightarrow> string \<Rightarrow> string"
  encodeURIComponent :: "string \<Rightarrow> string"
  toDataURL :: "string \<Rightarrow> string"

record generatedQRCode =
  g_qrCode :: string
  g_qrData :: string
  g_frontendUrl :: string
  g_expiresAt :: int
  g_eventId :: string
  g_type :: string

record tokenValidation =
  v_eventId :: string
  v_eventTitle :: string
  v_startDate :: int
  v_endDate :: int
  v_registrationRequired :: bool
  v_registrationDeadline :: "int option"
  v_maxAttendees :: "int option"
  v_currentAttendees :: int
  v_isValid :: bool
  v_expiresAt :: int

text \<open>\<open>process.env.QR_SECRET || 'default-secret'\<close>.\<close>

definition qrSecret :: "platform \<Rightarrow> string" where
  "qrSecret p =
     (case env_QR_SECRET p of None \<Rightarrow> ''default-secret''
      | Some k \<Rightarrow> if k = [] then ''default-secret'' else k)"

definition secureData :: "string \<Rightarrow> int \<Rightarrow> string" where
  "secureData eventId timestamp = ''event-checkin:'' @ eventId @ '':'' @ numberToString timestamp"

definition secureToken :: "platform \<Rightarrow> string \<Rightarrow> int \<Rightarrow> string" where
  "secureToken p eventId timestamp =
     secureData eventId timestamp @ '':'' @
       hmacSha256Hex p (qrSecret p) (secureData eventId timestamp)"

definition frontendUrl :: "platform \<Rightarrow> string \<Rightarrow> string \<Rightarrow> string" where
  "frontendUrl p eventId token =
     (case env_FRONTEND_URL p of None \<Rightarrow> ''undefined'' | Some u \<Rightarrow> u)
       @ ''/events/'' @ eventId @ ''/checkin?token='' @ encodeURIComponent p token"

text \<open>Issuing a token. The lifetime is a number of hours, here a whole number; the
  expiry and the token's timestamp come from the one clock reading of the call. The row's
  id is fresh. First \<open>updateMany\<close> over the active rows of the event:\<close>

definition deactivateEventQRCodes :: "string \<Rightarrow> qRCode list \<Rightarrow> qRCode list" where
  "deactivateEventQRCodes eventId qs =
     map (\<lambda>q. if qrEventId q = eventId \<and> qrIsActive q then q\<lparr>qrIsActive := False\<rparr> else q) qs"

definition generateEventQR ::
  "platform \<Rightarrow> store \<Rightarrow> int \<Rightarrow> string \<Rightarrow> int \<Rightarrow> error + generatedQRCode \<times> store" where
  "generateEventQR p s now eventId expirationHours =
     (case events s eventId of
        None \<Rightarrow> Inl EventNotFound
      | Some ev \<Rightarrow>
          if \<not> isActive ev then Inl EventInactive
          else
            (let qs = deactivateEventQRCodes eventId (qRCodes s);
                 expires = now + expirationHours * 60 * 60 * 1000;
                 token = secureToken p eventId now;
                 url = frontendUrl p eventId token;
                 row = \<lparr>qrCodeId = length qs, qrEventId = eventId, qrData = token,
                        qrType = ''secure'', expiresAt = expires, qrIsActive = True,
                        createdAt = now\<rparr>
             in Inr (\<lparr>g_qrCode = toDataURL p url, g_qrData = token, g_frontendUrl = url,
                       g_expiresAt = expires, g_eventId = eventId, g_type = ''secure''\<rparr>,
                     s\<lparr>qRCodes := qs @ [row]\<rparr>)))"

text \<open>\<open>findFirst\<close> for an active row with this event and this content.\<close>

definition findActiveQRCode :: "store \<Rightarrow> string \<Rightarrow> string \<Rightarrow> qRCode option" where
  "findActiveQRCode s eventId token =
     find (\<lambda>q. qrEventId q = eventId \<and> qrData q = token \<and> qrIsActive q) (qRCodes s)"

text \<open>The second half of both QR check-ins, the same text in \<open>validateAndCheckIn\<close> and
  \<open>checkInWithToken\<close>: refuse a second check-in, register the user when the event requires
  it and the user is not registered, then write the check-in. The attendance row is read
  before the registration transaction and written after it.\<close>

definition qrRegisterAndCheckIn ::
  "store \<Rightarrow> int \<Rightarrow> string \<Rightarrow> string \<Rightarrow> event \<Rightarrow> error + store" where
  "qrRegisterAndCheckIn s now eventId userId ev =
     (let existingAttendance = attendances s (eventId, userId) in
      if (case existingAttendance of None \<Rightarrow> False | Some a \<Rightarrow> checkInTime a \<noteq> None)
        then Inl AlreadyCheckedIn
      else
        (case
           (if registrationRequired ev \<and> eventRegistrations s (eventId, userId) = None
            then
              if (case registrationDeadline ev of None \<Rightarrow> False | Some d \<Rightarrow> now > d)
                then Inl DeadlinePassed
              else if capacityReached ev then Inl CapacityExceeded
              else registrationTx s now eventId userId
            else Inr s)
         of
           Inl e \<Rightarrow> Inl e
         | Inr s1 \<Rightarrow>
             (case existingAttendance of
                Some a \<Rightarrow>
                  Inr (s1\<lparr>attendances := (attendances s1)((eventId, userId) \<mapsto>
                         a\<lparr>checkInTime := Some now, attendanceStatus := ''CHECKED_IN''\<rparr>)\<rparr>)
              | None \<Rightarrow>
                  Inr (s1\<lparr>attendances := (attendances s1)((eventId, userId) \<mapsto>
                         newAttendance now None)\<rparr>))))"

text \<open>\<open>validateAndCheckIn\<close> takes the event from the token's second segment. The row's
  event is the one its foreign key names; a row whose event is missing cannot exist in the
  database and is answered \<open>EventNotFound\<close> here.\<close>

definition validateAndCheckIn :: "store \<Rightarrow> int \<Rightarrow> string \<Rightarrow> string \<Rightarrow> error + store" where
  "validateAndCheckIn s now qr userId =
     (let parts = split_on CHR '':'' qr in
      if length parts < 2 \<or> parts ! 0 \<noteq> ''event-checkin'' then Inl InvalidFormat
      else
        (let eventId = parts ! 1 in
         case findActiveQRCode s eventId qr of
           None \<Rightarrow> Inl TokenNotFound
         | Some qrCodeRecord \<Rightarrow>
             if now > expiresAt qrCodeRecord then Inl TokenExpired
             else
               (case events s eventId of
                  None \<Rightarrow> Inl EventNotFound
                | Some ev \<Rightarrow>
                    if \<not> isActive ev then Inl EventInactive
                    else if startDate ev > now then Inl EventNotStarted
                    else if endDate ev < now then Inl EventEnded
                    else qrRegisterAndCheckIn s now eventId userId ev)))"

definition revokeQRCode :: "store \<Rightarrow> string \<Rightarrow> error + store" where
  "revokeQRCode s eventId =
     (case find (\<lambda>q. qrEventId q = eventId \<and> qrIsActive q) (qRCodes s) of
        None \<Rightarrow> Inl NoActiveToken
      | Some qrCode \<Rightarrow>
          Inr (s\<lparr>qRCodes := map (\<lambda>q. if qrCodeId q = qrCodeId qrCode
                                       then q\<lparr>qrIsActive := False\<rparr> else q) (qRCodes s)\<rparr>))"

text \<open>\<open>validateCheckinToken\<close> compares the token's second segment with the event id of
  the request before it looks the token up; the row's event is again the one of its
  foreign key.\<close>

definition validateCheckinToken ::
  "store \<Rightarrow> int \<Rightarrow> string \<Rightarrow> string \<Rightarrow> error + tokenValidation" where
  "validateCheckinToken s now eventId token =
     (let parts = split_on CHR '':'' token in
      if length parts < 4 \<or> parts ! 0 \<noteq> ''event-checkin'' then Inl InvalidFormat
      else if parts ! 1 \<noteq> eventId then Inl EventMismatch
      else
        (case findActiveQRCode s eventId token of
           None \<Rightarrow> Inl TokenNotFound
         | Some qrCodeRecord \<Rightarrow>
             if now > expiresAt qrCodeRecord then Inl TokenExpired
             else
               (case events s eventId of
                  None \<Rightarrow> Inl EventNotFound
                | Some ev \<Rightarrow>
                    if \<not> isActive ev then Inl EventInactive
                    else if startDate ev > now then Inl EventNotStarted
                    else if endDate ev < now then Inl EventEnded
                    else Inr \<lparr>v_eventId = eventId, v_eventTitle = title ev,
                              v_startDate = startDate ev, v_endDate = endDate ev,
                              v_registrationRequired = registrationRequired ev,
                              v_registrationDeadline = registrationDeadline ev,
                              v_maxAttendees = maxAttendees ev,
                              v_currentAttendees = currentAttendees ev,
                              v_isValid = True, v_expiresAt = expiresAt qrCodeRecord\<rparr>)))"

definition checkInWithToken :: "store \<Rightarrow> int \<Rightarrow> string \<Rightarrow> string \<Rightarrow> string \<Rightarrow> error + store" where
  "checkInWithToken s now eventId token userId =
     (case validateCheckinToken s now eventId token of
        Inl e \<Rightarrow> Inl e
      | Inr v \<Rightarrow>
          (case events s eventId of
             None \<Rightarrow> Inl EventNotFound
           | Some ev \<Rightarrow> qrRegisterAndCheckIn s now eventId userId ev))"

definition cleanupExpiredQRCodes :: "store \<Rightarrow> int \<Rightarrow> store" where
  "cleanupExpiredQRCodes s now =
     s\<lparr>qRCodes := map (\<lambda>q. if expiresAt q < now \<and> qrIsActive q
                             then q\<lparr>qrIsActive := False\<rparr> else q) (qRCodes s)\<rparr>"

section \<open>The public operations\<close>

text \<open>One constructor per service method that the claims speak of, and the function that
  runs a request against the store. A failed request leaves the store as it was.\<close>

datatype request =
    UpdateEvent string updateEventDto string string
  | RegisterForEvent string string
  | CancelRegistration string string
  | EventCheckIn checkInDto
  | EventCheckOut checkOutDto
  | MarkAttendance string string
  | AttendanceCheckIn checkInDto
  | AttendanceCheckOut checkOutDto
  | GenerateEventQR string int
  | ValidateAndCheckIn string string
  | RevokeQRCode string
  | ValidateCheckinToken string string
  | CheckInWithToken string string string
  | CleanupExpiredQRCodes

datatype response = Ok | OkGenerated generatedQRCode | OkValidated tokenValidation

definition ok :: "error + store \<Rightarrow> error + response \<times> store" where
  "ok r = (case r of Inl e \<Rightarrow> Inl e | Inr s \<Rightarrow> Inr (Ok, s))"

fun handle :: "platform \<Rightarrow> store \<Rightarrow> int \<Rightarrow> request \<Rightarrow> error + response \<times> store" where
  "handle p s now (UpdateEvent eid d uid role) = ok (updateEvent s eid d uid role)"
| "handle p s now (RegisterForEvent e u) = ok (registerForEvent s now e u)"
| "handle p s now (CancelRegistration e u) = ok (cancelRegistration s now e u)"
| "handle p s now (EventCheckIn d) = ok (EventService_checkIn s now d)"
| "handle p s now (EventCheckOut d) = ok (EventService_checkOut s now d)"
| "handle p s now (MarkAttendance e u) = ok (markAttendance s now e u)"
| "handle p s now (AttendanceCheckIn d) = ok (AttendanceService_checkIn s now d)"
| "handle p s now (AttendanceCheckOut d) = ok (AttendanceService_checkOut s now d)"
| "handle p s now (GenerateEventQR e h) =
     (case generateEventQR p s now e h of Inl x \<Rightarrow> Inl x | Inr (g, s') \<Rightarrow> Inr (OkGenerated g, s'))"
| "handle p s now (ValidateAndCheckIn qr u) = ok (validateAndCheckIn s now qr u)"
| "handle p s now (RevokeQRCode e) = ok (revokeQRCode s e)"
| "handle p s now (ValidateCheckinToken e t) =
     (case validateCheckinToken s now e t of Inl x \<Rightarrow> Inl x | Inr v \<Rightarrow> Inr (OkValidated v, s))"
| "handle p s now (CheckInWithToken e t u) = ok (checkInWithToken s now e t u)"
| "handle p s now CleanupExpiredQRCodes = Inr (Ok, cleanupExpiredQRCodes s now)"

definition storeAfter :: "platform \<Rightarrow> store \<Rightarrow> int \<times> request \<Rightarrow> store" where
  "storeAfter p s r = (case handle p s (fst r) (snd r) of Inl e \<Rightarrow> s | Inr (x, s') \<Rightarrow> s')"

section \<open>Registration, one store access at a time\<close>

text \<open>\<open>registerForEvent\<close> reaches the store three times, at its three \<open>await\<close>s: it reads
  the event, it reads the registration, and it runs the transaction. Between two of them
  another request may run. After each access the request is at one of these points; the
  checks that follow an access use the value that access returned.\<close>

datatype registerPoint =
    AtStart
  | HasEvent event
  | ReadyToCommit
  | Finished "error + unit"

fun registerStep ::
  "int \<Rightarrow> string \<Rightarrow> string \<Rightarrow> registerPoint \<times> store \<Rightarrow> registerPoint \<times> store" where
  "registerStep now eventId userId (AtStart, s) =
     (case events s eventId of
        None \<Rightarrow> (Finished (Inl EventNotFound), s)
      | Some ev \<Rightarrow>
          if \<not> isActive ev then (Finished (Inl EventInactive), s)
          else if \<not> registrationRequired ev then (Finished (Inl RegistrationNotRequired), s)
          else if startDate ev \<le> now then (Finished (Inl EventAlreadyStarted), s)
          else if (case registrationDeadline ev of None \<Rightarrow> False | Some d \<Rightarrow> d \<le> now)
            then (Finished (Inl DeadlinePassed), s)
          else (HasEvent ev, s))"
| "registerStep now eventId userId (HasEvent ev, s) =
     (if eventRegistrations s (eventId, userId) \<noteq> None then (Finished (Inl AlreadyRegistered), s)
      else if capacityReached ev then (Finished (Inl CapacityExceeded), s)
      else (ReadyToCommit, s))"
| "registerStep now eventId userId (ReadyToCommit, s) =
     (case registrationTx s now eventId userId of
        Inl e \<Rightarrow> (Finished (Inl e), s)
      | Inr s' \<Rightarrow> (Finished (Inr ()), s'))"
| "registerStep now eventId userId (Finished r, s) = (Finished r, s)"

text \<open>Two registration requests for one event, by two users, and a schedule that says
  whose turn each store access is (\<open>True\<close>: the first request's).\<close>

record twoRequests =
  first :: registerPoint
  second :: registerPoint
  shared :: store

definition turn :: "int \<Rightarrow> string \<Rightarrow> string \<Rightarrow> string \<Rightarrow> twoRequests \<Rightarrow> bool \<Rightarrow> twoRequests" where
  "turn now eventId userA userB c b =
     (if b then
        (case registerStep now eventId userA (first c, shared c) of
           (pt, s') \<Rightarrow> c\<lparr>first := pt, shared := s'\<rparr>)
      else
        (case registerStep now eventId userB (second c, shared c) of
           (pt, s') \<Rightarrow> c\<lparr>second := pt, shared := s'\<rparr>))"

definition runSchedule ::
  "int \<Rightarrow> string \<Rightarrow> string \<Rightarrow> string \<Rightarrow> store \<Rightarrow> bool list \<Rightarrow> twoRequests" where
  "runSchedule now eventId userA userB s sched =
     foldl (turn now eventId userA userB) \<lparr>first = AtStart, second = AtStart, shared = s\<rparr> sched"

definition confirmedCount :: "store \<Rightarrow> string \<Rightarrow> string list \<Rightarrow> nat" where
  "confirmedCount s eventId us =
     length (filter (\<lambda>u. (case eventRegistrations s (eventId, u) of
                             None \<Rightarrow> False | Some r \<Rightarrow> registrationStatus r = ''CONFIRMED'')) us)"

section \<open>The registration contract in the specification's words\<close>

text \<open>\<open>Register(eventId, userId)\<close> as the specification lists it: each failure with its
  condition, in the order given, a capacity being set when it is not absent; on success a
  \<open>CONFIRMED\<close> registration and a counter one higher.\<close>

definition Register_spec :: "store \<Rightarrow> int \<Rightarrow> string \<Rightarrow> string \<Rightarrow> error + store" where
  "Register_spec s now eventId userId =
     (case events s eventId of
        None \<Rightarrow> Inl EventNotFound
      | Some ev \<Rightarrow>
          if isActive ev = False then Inl EventInactive
          else if \<not> registrationRequired ev then Inl RegistrationNotRequired
          else if now \<ge> startDate ev then Inl EventAlreadyStarted
          else if (case registrationDeadline ev of None \<Rightarrow> False | Some d \<Rightarrow> d \<le> now)
            then Inl DeadlinePassed
          else if (case eventRegistrations s (eventId, userId) of None \<Rightarrow> False | Some r \<Rightarrow> True)
            then Inl AlreadyRegistered
          else if (case maxAttendees ev of None \<Rightarrow> False | Some m \<Rightarrow> currentAttendees ev \<ge> m)
            then Inl CapacityExceeded
          else Inr (s\<lparr>eventRegistrations := (eventRegistrations s)((eventId, userId) \<mapsto>
                        \<lparr>registrationStatus = ''CONFIRMED'', registrationDate = now\<rparr>),
                      events := (events s)(eventId \<mapsto>
                        ev\<lparr>currentAttendees := currentAttendees ev + 1\<rparr>)\<rparr>))"

section \<open>Example data\<close>

text \<open>An event that requires registration, runs from 1000 to 2000 and has one place,
  and a store that holds it.\<close>

definition demoEvent :: event where
  "demoEvent =
     \<lparr>title = ''Friday Prayer'', description = ''Weekly Friday prayer'', startDate = 1000,
      endDate = 2000, location = ''Main Mosque'', maxAttendees = Some 1, currentAttendees = 0,
      category = PRAYER, imageUrl = None, registrationRequired = True,
      registrationDeadline = None, isActive = True, createdById = ''admin''\<rparr>"

definition demoStore :: store where
  "demoStore =
     \<lparr>users = [''admin'' \<mapsto> ''ADMIN''], events = [''e1'' \<mapsto> demoEvent],
      eventRegistrations = Map.empty, attendances = Map.empty, qRCodes = []\<rparr>"

text \<open>The state \<open>CHECKED_OUT\<close> of an attendance row, as the check-out writes it.\<close>

definition checkedOut :: "attendance \<Rightarrow> bool" where
  "checkedOut a =
     (attendanceStatus a = ''CHECKED_OUT'' \<and> checkInTime a \<noteq> None \<and> checkOutTime a \<noteq> None)"

text \<open>The same store with user \<open>u1\<close> registered, then checked in at 1500, then checked out
  at 1700; a check-in request for that user; a platform whose keyed hash is constant.\<close>

definition demoRegistration :: eventRegistration where
  "demoRegistration = \<lparr>registrationStatus = ''CONFIRMED'', registrationDate = 5\<rparr>"

definition demoRegistered :: store where
  "demoRegistered =
     demoStore\<lparr>events := [''e1'' \<mapsto> demoEvent\<lparr>currentAttendees := 1\<rparr>],
               eventRegistrations := [(''e1'', ''u1'') \<mapsto> demoRegistration]\<rparr>"

definition demoDto :: checkInDto where
  "demoDto = \<lparr>dto_eventId = ''e1'', dto_userId = ''u1'', dto_notes = None\<rparr>"

definition demoCheckedIn :: store where
  "demoCheckedIn =
     demoRegistered\<lparr>attendances := [(''e1'', ''u1'') \<mapsto> newAttendance 1500 None]\<rparr>"

definition demoCheckedOut :: store where
  "demoCheckedOut =
     demoRegistered\<lparr>attendances := [(''e1'', ''u1'') \<mapsto>
       \<lparr>checkInTime = Some 1500, checkOutTime = Some 1700, attendanceStatus = ''CHECKED_OUT'',
        attendanceNotes = None\<rparr>]\<rparr>"

definition demoPlatform :: platform where
  "demoPlatform =
     \<lparr>env_QR_SECRET = Some ''s3cret'', env_FRONTEND_URL = Some ''https://app.example'',
      hmacSha256Hex = (\<lambda>key msg. ''00ff''), encodeURIComponent = (\<lambda>t. t),
      toDataURL = (\<lambda>t. ''data:image/png;base64,'' @ t)\<rparr>"

section \<open>The capacity invariant\<close>

text \<open>The invariant of the data model, for one event row: with a capacity set, the
  counter lies between 0 and the capacity.\<close>

definition capacityInvariant :: "event \<Rightarrow> bool" where
  "capacityInvariant ev =
     (case maxAttendees ev of None \<Rightarrow> True
      | Some m \<Rightarrow> 0 \<le> currentAttendees ev \<and> currentAttendees ev \<le> m)"

text \<open>The event exists, its row satisfies the invariant and its capacity is not zero.\<close>

definition capacityInvariantAt :: "store \<Rightarrow> string \<Rightarrow> bool" where
  "capacityInvariantAt s e =
     (case events s e of None \<Rightarrow> False
      | Some ev \<Rightarrow> capacityInvariant ev \<and> maxAttendees ev \<noteq> Some 0)"

text \<open>The requests under which the invariant of event \<open>e\<close> is kept: an update of \<open>e\<close>
  leaves the row, with the capacity and the counter the body carries in place of the
  row's, without a capacity or with a capacity that is not zero and a counter between 0
  and the capacity; a cancellation for \<open>e\<close>, when \<open>e\<close> has a capacity, finds the counter at 1
  or more. Every other request qualifies.\<close>

definition keepsCapacity :: "store \<Rightarrow> string \<Rightarrow> request \<Rightarrow> bool" where
  "keepsCapacity s e r =
     (case events s e of
        None \<Rightarrow> True
      | Some ev \<Rightarrow>
          (case r of
             UpdateEvent e' d uid role \<Rightarrow>
               (if e' = e then
                  (case (case upd_maxAttendees d of None \<Rightarrow> maxAttendees ev | Some m \<Rightarrow> Some m) of
                     None \<Rightarrow> True
                   | Some m \<Rightarrow>
                       m \<noteq> 0
                       \<and> 0 \<le> (case upd_currentAttendees d of
                                  None \<Rightarrow> currentAttendees ev | Some c \<Rightarrow> c)
                       \<and> (case upd_currentAttendees d of
                             None \<Rightarrow> currentAttendees ev | Some c \<Rightarrow> c) \<le> m)
                else True)
           | CancelRegistration e' u \<Rightarrow>
               (if e' = e then maxAttendees ev = None \<or> 1 \<le> currentAttendees ev else True)
           | _ \<Rightarrow> True))"

text \<open>A sequence of requests, each with its clock reading, run one after the other; each
  request is judged in the store it meets.\<close>

fun keepsCapacityAll :: "platform \<Rightarrow> store \<Rightarrow> string \<Rightarrow> (int \<times> request) list \<Rightarrow> bool" where
  "keepsCapacityAll p s e [] = True"
| "keepsCapacityAll p s e (r # rs) =
     (keepsCapacity s e (snd r) \<and> keepsCapacityAll p (storeAfter p s r) e rs)"

definition emptyUpdate :: updateEventDto where
  "emptyUpdate =
     \<lparr>upd_title = None, upd_description = None, upd_startDate = None, upd_endDate = None,
      upd_location = None, upd_maxAttendees = None, upd_category = None, upd_imageUrl = None,
      upd_registrationRequired = None, upd_registrationDeadline = None, upd_isActive = None,
      upd_currentAttendees = None, upd_createdById = None\<rparr>"

text \<open>The scenario of the specification: one place; the first user registers, the second
  is refused, the first cancels, the second registers. Then the event is renamed, its
  capacity is raised to 3, and the second user checks in.\<close>

definition demoRequests :: "(int \<times> request) list" where
  "demoRequests =
     [(5, RegisterForEvent ''e1'' ''u1''), (6, RegisterForEvent ''e1'' ''u2''),
      (7, CancelRegistration ''e1'' ''u1''), (8, RegisterForEvent ''e1'' ''u2''),
      (9, UpdateEvent ''e1'' (emptyUpdate\<lparr>upd_title := Some ''Jumuah''\<rparr>) ''admin'' ''ADMIN''),
      (10, UpdateEvent ''e1'' (emptyUpdate\<lparr>upd_maxAttendees := Some 3\<rparr>) ''admin'' ''ADMIN''),
      (1500, AttendanceCheckIn \<lparr>dto_eventId = ''e1'', dto_userId = ''u2'', dto_notes = None\<rparr>)]"

text \<open>A token of event \<open>e1\<close> and its stored row; a store in which \<open>e1\<close> is running and \<open>e2\<close>
  is still to start, both with the registration deadline 1500.\<close>

definition demoToken :: string where
  "demoToken = ''event-checkin:e1:1000:00ff''"

definition demoQRCode :: qRCode where
  "demoQRCode = \<lparr>qrCodeId = 0, qrEventId = ''e1'', qrData = demoToken, qrType = ''secure'',
     expiresAt = 5000, qrIsActive = True, createdAt = 1000\<rparr>"

definition deadlineStore :: store where
  "deadlineStore =
     demoStore\<lparr>events := [''e1'' \<mapsto> demoEvent\<lparr>registrationDeadline := Some 1500\<rparr>,
                           ''e2'' \<mapsto> demoEvent\<lparr>registrationDeadline := Some 1500,
                                                startDate := 3000, endDate := 4000\<rparr>],
               qRCodes := [demoQRCode]\<rparr>"

section \<open>Active QR codes and issued tokens\<close>



text \<open>The example store after a token is issued for \<open>e1\<close> at 900, one hour valid; after a
  second token is issued in the same millisecond, or 50 ms later; and after a token is issued
  at 1500, while the event runs.\<close>

definition issuedOnce :: store where
  "issuedOnce = storeAfter demoPlatform demoStore (900, GenerateEventQR ''e1'' 1)"



definition issuedRunning :: store where
  "issuedRunning = storeAfter demoPlatform demoStore (1500, GenerateEventQR ''e1'' 1)"


definition forgedStore :: store where
  "forgedStore =
     demoStore\<lparr>qRCodes :=
       [\<lparr>qrCodeId = 0, qrEventId = ''e1'', qrData = ''event-checkin:e1:1000:ffff'',
         qrType = ''secure'', expiresAt = 5000, qrIsActive = True, createdAt = 1000\<rparr>]\<rparr>"

section \<open>What the routes admit and what the requests write\<close>

text \<open>The routes that create and update an event validate the body with
  \<open>body('maxAttendees').optional().isInt({ min: 1 })\<close>: a capacity is absent or at least 1.
  \<open>validatedRequest\<close> is that check on an update; the other requests carry no capacity.\<close>

definition validMaxAttendees :: "int option \<Rightarrow> bool" where
  "validMaxAttendees m = (case m of None \<Rightarrow> True | Some v \<Rightarrow> 1 \<le> v)"

definition validatedRequest :: "request \<Rightarrow> bool" where
  "validatedRequest r =
     (case r of UpdateEvent e d uid role \<Rightarrow> validMaxAttendees (upd_maxAttendees d) | _ \<Rightarrow> True)"

text \<open>The capacity of an event of the store is one that the validators admit.\<close>

definition capacityAsValidated :: "store \<Rightarrow> string \<Rightarrow> bool" where
  "capacityAsValidated s e =
     (case events s e of None \<Rightarrow> True | Some ev \<Rightarrow> validMaxAttendees (maxAttendees ev))"

text \<open>Every \<open>eventRegistration.create\<close> of the services writes the status \<open>CONFIRMED\<close>, and no
  service updates a registration: a registration of the pair, if there is one, is confirmed.\<close>

definition registrationConfirmedAt :: "store \<Rightarrow> string \<times> string \<Rightarrow> bool" where
  "registrationConfirmedAt s k =
     (case eventRegistrations s k of
        None \<Rightarrow> True | Some r \<Rightarrow> registrationStatus r = ''CONFIRMED'')"

text \<open>The example store with the registration's status set to \<open>PENDING\<close>, a row that no
  request writes.\<close>

definition demoPending :: store where
  "demoPending =
     demoRegistered\<lparr>eventRegistrations :=
       [(''e1'', ''u1'') \<mapsto> demoRegistration\<lparr>registrationStatus := ''PENDING''\<rparr>]\<rparr>"

section \<open>Properties of the helpers\<close>

lemma registrationTx_fresh:
  "eventRegistrations s (e, u) = None \<Longrightarrow> events s e = Some ev \<Longrightarrow>
   registrationTx s now e u =
     Inr (s\<lparr>eventRegistrations := (eventRegistrations s)((e, u) \<mapsto>
                \<lparr>registrationStatus = ''CONFIRMED'', registrationDate = now\<rparr>),
             events := (events s)(e \<mapsto> ev\<lparr>currentAttendees := currentAttendees ev + 1\<rparr>)\<rparr>)"
  by (simp add: registrationTx_def eventRegistration_create_def event_increment_def)

lemma right_result: "\<not> isl x \<Longrightarrow> x = Inr (projr x)"
  by (cases x) simp_all

section \<open>Registration outcomes\<close>

text \<open>
  Claim C3. \<open>registerForEvent\<close> is the registration contract of the specification: it fails
  \<open>EventNotFound\<close>, \<open>EventInactive\<close>, \<open>RegistrationNotRequired\<close>, \<open>EventAlreadyStarted\<close>,
  \<open>DeadlinePassed\<close>, \<open>AlreadyRegistered\<close> and \<open>CapacityExceeded\<close> under the stated conditions,
  each taken after the ones before it, and otherwise writes a \<open>CONFIRMED\<close> registration and
  raises \<open>currentAttendees\<close> by one, with nothing else changed. The capacity of the event is
  one that is not zero: the routes that write a capacity admit none below 1
  (\<open>validMaxAttendees\<close>), and such a capacity stays one under every validated request.
\<close>

theorem registerForEvent_refines_spec:
  assumes "case events s e of None \<Rightarrow> True | Some ev \<Rightarrow> maxAttendees ev \<noteq> Some 0"
  shows "registerForEvent s now e u = Register_spec s now e u"
proof (cases "events s e")
  case None
  then show ?thesis by (simp add: registerForEvent_def Register_spec_def)
next
  case (Some ev)
  with assms have nz: "maxAttendees ev \<noteq> Some 0" by simp
  then have cap: "capacityReached ev =
      (case maxAttendees ev of None \<Rightarrow> False | Some m \<Rightarrow> currentAttendees ev \<ge> m)"
    by (auto simp: capacityReached_def split: option.splits)
  show ?thesis
    using Some cap
    by (auto simp: registerForEvent_def Register_spec_def registrationTx_fresh
        split: option.splits)
qed

text \<open>The contract at a full event: the second user is refused.\<close>

theorem registerForEvent_refines_spec_witness:
  "registerForEvent (demoStore\<lparr>events := [''e1'' \<mapsto> demoEvent\<lparr>currentAttendees := 1\<rparr>]\<rparr>)
     5 ''e1'' ''u2'' = Inl CapacityExceeded"
  using registerForEvent_refines_spec
    [of "demoStore\<lparr>events := [''e1'' \<mapsto> demoEvent\<lparr>currentAttendees := 1\<rparr>]\<rparr>" "''e1''" 5 "''u2''"]
  by (simp add: Register_spec_def demoStore_def demoEvent_def)

text \<open>A capacity of zero is not one the routes admit. Were it in the store, the contract
  would say \<open>CapacityExceeded\<close>, while the guard \<open>event.maxAttendees && ...\<close> of
  \<open>registerForEvent\<close> takes zero for no capacity.\<close>

lemma registerForEvent_at_zero_capacity:
  "Register_spec (demoStore\<lparr>events := [''e1'' \<mapsto> demoEvent\<lparr>maxAttendees := Some 0\<rparr>]\<rparr>)
       5 ''e1'' ''u1'' = Inl CapacityExceeded
   \<and> \<not> isl (registerForEvent
          (demoStore\<lparr>events := [''e1'' \<mapsto> demoEvent\<lparr>maxAttendees := Some 0\<rparr>]\<rparr>) 5 ''e1'' ''u1'')"
  by (simp add: registerForEvent_def Register_spec_def demoStore_def demoEvent_def
      capacityReached_def registrationTx_def eventRegistration_create_def event_increment_def)

section \<open>What a request leaves alone\<close>

lemma registrationTx_frame:
  "registrationTx s now e u = Inr s' \<Longrightarrow>
     attendances s' = attendances s \<and> qRCodes s' = qRCodes s \<and> users s' = users s"
  by (auto simp: registrationTx_def eventRegistration_create_def event_increment_def
      split: if_splits option.splits sum.splits)

lemma cancellationTx_frame:
  "cancellationTx s e u = Inr s' \<Longrightarrow>
     attendances s' = attendances s \<and> qRCodes s' = qRCodes s \<and> users s' = users s"
  by (auto simp: cancellationTx_def eventRegistration_delete_def event_increment_def
      split: if_splits option.splits sum.splits)

lemma registerForEvent_frame:
  "registerForEvent s now e u = Inr s' \<Longrightarrow>
     attendances s' = attendances s \<and> qRCodes s' = qRCodes s \<and> users s' = users s"
  by (auto simp: registerForEvent_def split: if_splits option.splits dest: registrationTx_frame)

lemma cancelRegistration_frame:
  "cancelRegistration s now e u = Inr s' \<Longrightarrow>
     attendances s' = attendances s \<and> qRCodes s' = qRCodes s \<and> users s' = users s"
  by (auto simp: cancelRegistration_def split: if_splits option.splits dest: cancellationTx_frame)

lemma updateEvent_frame:
  "updateEvent s e d uid role = Inr s' \<Longrightarrow>
     attendances s' = attendances s \<and> qRCodes s' = qRCodes s \<and> users s' = users s
     \<and> eventRegistrations s' = eventRegistrations s"
  by (auto simp: updateEvent_def split: if_splits option.splits)

lemma EventService_checkIn_settled:
  assumes "EventService_checkIn s now d = Inr s'" "attendances s k = Some a" "checkInTime a \<noteq> None"
  shows "attendances s' k = Some a"
  using assms
  by (auto simp: EventService_checkIn_def Let_def split: if_splits option.splits)

lemma markAttendance_settled:
  assumes "markAttendance s now e u = Inr s'" "attendances s k = Some a" "checkInTime a \<noteq> None"
  shows "attendances s' k = Some a"
  using assms
  by (auto simp: markAttendance_def Let_def split: if_splits option.splits)

lemma AttendanceService_checkIn_settled:
  assumes "AttendanceService_checkIn s now d = Inr s'" "attendances s k = Some a" "checkInTime a \<noteq> None"
  shows "attendances s' k = Some a"
  using assms
  by (auto simp: AttendanceService_checkIn_def Let_def split: if_splits option.splits)

lemma checkOut_settled:
  assumes "checkOut s now d = Inr s'" "attendances s k = Some a" "checkOutTime a \<noteq> None"
  shows "attendances s' k = Some a"
  using assms
  by (auto simp: checkOut_def Let_def split: if_splits option.splits)

lemma qrRegisterAndCheckIn_settled:
  assumes "qrRegisterAndCheckIn s now e u ev = Inr s'" "attendances s k = Some a" "checkInTime a \<noteq> None"
  shows "attendances s' k = Some a"
  using assms
  by (auto simp: qrRegisterAndCheckIn_def Let_def split: if_splits option.splits sum.splits
      dest!: registrationTx_frame)

lemma validateAndCheckIn_settled:
  assumes "validateAndCheckIn s now qr u = Inr s'" "attendances s k = Some a" "checkInTime a \<noteq> None"
  shows "attendances s' k = Some a"
  using assms
  by (auto simp: validateAndCheckIn_def Let_def split: if_splits option.splits
      dest: qrRegisterAndCheckIn_settled)

lemma checkInWithToken_settled:
  assumes "checkInWithToken s now e t u = Inr s'" "attendances s k = Some a" "checkInTime a \<noteq> None"
  shows "attendances s' k = Some a"
  using assms
  by (auto simp: checkInWithToken_def split: sum.splits option.splits
      dest: qrRegisterAndCheckIn_settled)

lemma generateEventQR_frame:
  "generateEventQR p s now e h = Inr (g, s') \<Longrightarrow>
     attendances s' = attendances s \<and> events s' = events s
     \<and> eventRegistrations s' = eventRegistrations s \<and> users s' = users s"
  by (auto simp: generateEventQR_def Let_def split: if_splits option.splits)

lemma revokeQRCode_frame:
  "revokeQRCode s e = Inr s' \<Longrightarrow>
     attendances s' = attendances s \<and> events s' = events s
     \<and> eventRegistrations s' = eventRegistrations s \<and> users s' = users s"
  by (auto simp: revokeQRCode_def split: option.splits)

lemma handle_keeps_checked_out:
  assumes h: "handle p s now r = Inr (x, s')"
    and a: "attendances s k = Some a" "checkInTime a \<noteq> None" "checkOutTime a \<noteq> None"
  shows "attendances s' k = Some a"
proof (cases r)
  case (UpdateEvent e d uid role)
  with h a show ?thesis by (auto simp: ok_def split: sum.splits dest: updateEvent_frame)
next
  case (RegisterForEvent e u)
  with h a show ?thesis by (auto simp: ok_def split: sum.splits dest: registerForEvent_frame)
next
  case (CancelRegistration e u)
  with h a show ?thesis by (auto simp: ok_def split: sum.splits dest: cancelRegistration_frame)
next
  case (EventCheckIn d)
  with h a show ?thesis by (auto simp: ok_def split: sum.splits dest: EventService_checkIn_settled)
next
  case (EventCheckOut d)
  with h a show ?thesis
    by (auto simp: ok_def EventService_checkOut_def split: sum.splits dest: checkOut_settled)
next
  case (MarkAttendance e u)
  with h a show ?thesis by (auto simp: ok_def split: sum.splits dest: markAttendance_settled)
next
  case (AttendanceCheckIn d)
  with h a show ?thesis
    by (auto simp: ok_def split: sum.splits dest: AttendanceService_checkIn_settled)
next
  case (AttendanceCheckOut d)
  with h a show ?thesis
    by (auto simp: ok_def AttendanceService_checkOut_def split: sum.splits dest: checkOut_settled)
next
  case (GenerateEventQR e hrs)
  with h a show ?thesis by (auto split: sum.splits prod.splits dest: generateEventQR_frame)
next
  case (ValidateAndCheckIn qr u)
  with h a show ?thesis by (auto simp: ok_def split: sum.splits dest: validateAndCheckIn_settled)
next
  case (RevokeQRCode e)
  with h a show ?thesis by (auto simp: ok_def split: sum.splits dest: revokeQRCode_frame)
next
  case (ValidateCheckinToken e t)
  with h a show ?thesis by (auto split: sum.splits)
next
  case (CheckInWithToken e t u)
  with h a show ?thesis by (auto simp: ok_def split: sum.splits dest: checkInWithToken_settled)
next
  case CleanupExpiredQRCodes
  with h a show ?thesis by (auto simp: cleanupExpiredQRCodes_def)
qed

section \<open>The attendance state machine\<close>

text \<open>A check-out fails \<open>NotCheckedIn\<close> only on a row that has no check-in time.\<close>

lemma checkOut_NotCheckedIn_only:
  assumes "AttendanceService_checkOut s now d = Inl NotCheckedIn"
  shows "\<exists>a. attendances s (dto_eventId d, dto_userId d) = Some a \<and> checkInTime a = None"
  using assms
  by (auto simp: AttendanceService_checkOut_def checkOut_def Let_def
      split: option.splits if_splits)

text \<open>
  Claim C5, as amended. For every (event, user) pair: a second \<open>CheckIn\<close> after a successful
  one, while the event is still running, fails \<open>AlreadyCheckedIn\<close>; a \<open>CheckOut\<close> with no
  attendance row fails \<open>AttendanceNotFound\<close>, and with a row that has no check-in time fails
  \<open>NotCheckedIn\<close>; a \<open>CheckOut\<close> after a successful one fails \<open>AlreadyCheckedOut\<close>, the row
  being in the state \<open>CHECKED_OUT\<close>; and no request that succeeds changes a row in that state.
\<close>

theorem attendance_state_machine:
  "(AttendanceService_checkIn s now d = Inr s1 \<and> events s (dto_eventId d) = Some ev
      \<and> now \<le> now' \<and> now' \<le> endDate ev
      \<longrightarrow> AttendanceService_checkIn s1 now' (d\<lparr>dto_notes := n\<rparr>) = Inl AlreadyCheckedIn)
   \<and> (attendances s (dto_eventId d, dto_userId d) = None
      \<longrightarrow> AttendanceService_checkOut s now d = Inl AttendanceNotFound)
   \<and> (attendances s (dto_eventId d, dto_userId d) = Some a0 \<and> checkInTime a0 = None
      \<longrightarrow> AttendanceService_checkOut s now d = Inl NotCheckedIn)
   \<and> (AttendanceService_checkOut s now d = Inr s2
      \<longrightarrow> AttendanceService_checkOut s2 now' (d\<lparr>dto_notes := n\<rparr>) = Inl AlreadyCheckedOut
          \<and> (case attendances s2 (dto_eventId d, dto_userId d) of
                None \<Rightarrow> False | Some a' \<Rightarrow> checkedOut a'))
   \<and> (attendances s k = Some a \<and> checkedOut a \<and> handle p s now r = Inr (x, s3)
      \<longrightarrow> attendances s3 k = Some a)"
proof (intro conjI impI)
  assume "AttendanceService_checkIn s now d = Inr s1 \<and> events s (dto_eventId d) = Some ev
      \<and> now \<le> now' \<and> now' \<le> endDate ev"
  then show "AttendanceService_checkIn s1 now' (d\<lparr>dto_notes := n\<rparr>) = Inl AlreadyCheckedIn"
    by (auto simp: AttendanceService_checkIn_def Let_def newAttendance_def
        split: if_splits option.splits)
next
  assume "attendances s (dto_eventId d, dto_userId d) = None"
  then show "AttendanceService_checkOut s now d = Inl AttendanceNotFound"
    by (simp add: AttendanceService_checkOut_def checkOut_def)
next
  assume "attendances s (dto_eventId d, dto_userId d) = Some a0 \<and> checkInTime a0 = None"
  then show "AttendanceService_checkOut s now d = Inl NotCheckedIn"
    by (simp add: AttendanceService_checkOut_def checkOut_def)
next
  assume "AttendanceService_checkOut s now d = Inr s2"
  then show "AttendanceService_checkOut s2 now' (d\<lparr>dto_notes := n\<rparr>) = Inl AlreadyCheckedOut"
    by (auto simp: AttendanceService_checkOut_def checkOut_def Let_def
        split: if_splits option.splits)
next
  assume "AttendanceService_checkOut s now d = Inr s2"
  then show "case attendances s2 (dto_eventId d, dto_userId d) of
                None \<Rightarrow> False | Some a' \<Rightarrow> checkedOut a'"
    by (auto simp: AttendanceService_checkOut_def checkOut_def Let_def checkedOut_def
        split: if_splits option.splits)
next
  assume "attendances s k = Some a \<and> checkedOut a \<and> handle p s now r = Inr (x, s3)"
  then show "attendances s3 k = Some a"
    using handle_keeps_checked_out [of p s now r x s3 k a] by (simp add: checkedOut_def)
qed

text \<open>Each part at the example: the registered user checks in at 1500 and out at 1700.\<close>

theorem attendance_state_machine_witness:
  "AttendanceService_checkIn demoCheckedIn 1600 demoDto = Inl AlreadyCheckedIn
   \<and> AttendanceService_checkOut demoRegistered 1500 demoDto = Inl AttendanceNotFound
   \<and> AttendanceService_checkOut
        (demoRegistered\<lparr>attendances := [(''e1'', ''u1'') \<mapsto>
           \<lparr>checkInTime = None, checkOutTime = None, attendanceStatus = ''REGISTERED'',
            attendanceNotes = None\<rparr>]\<rparr>) 1500 demoDto = Inl NotCheckedIn
   \<and> AttendanceService_checkOut demoCheckedOut 1800 demoDto = Inl AlreadyCheckedOut
   \<and> attendances (storeAfter demoPlatform demoCheckedOut (5, CancelRegistration ''e1'' ''u1''))
        (''e1'', ''u1'') = attendances demoCheckedOut (''e1'', ''u1'')
   \<and> eventRegistrations (storeAfter demoPlatform demoCheckedOut (5, CancelRegistration ''e1'' ''u1''))
        (''e1'', ''u1'') = None"
proof -
  have in1: "AttendanceService_checkIn demoRegistered 1500 demoDto = Inr demoCheckedIn"
    by (simp add: AttendanceService_checkIn_def demoCheckedIn_def demoRegistered_def
        demoStore_def demoEvent_def demoRegistration_def demoDto_def Let_def)
  have out1: "AttendanceService_checkOut demoCheckedIn 1700 demoDto = Inr demoCheckedOut"
    by (simp add: AttendanceService_checkOut_def checkOut_def demoCheckedIn_def
        demoCheckedOut_def demoRegistered_def demoStore_def newAttendance_def demoDto_def
        jsOr_def Let_def)
  have ev: "events demoRegistered (dto_eventId demoDto) = Some (demoEvent\<lparr>currentAttendees := 1\<rparr>)"
    by (simp add: demoRegistered_def demoDto_def)
  have dto: "demoDto\<lparr>dto_notes := None\<rparr> = demoDto"
    by (simp add: demoDto_def)
  have w1: "AttendanceService_checkIn demoCheckedIn 1600 demoDto = Inl AlreadyCheckedIn"
    using attendance_state_machine
      [where s = demoRegistered and now = 1500 and d = demoDto and ?s1.0 = demoCheckedIn
         and ev = "demoEvent\<lparr>currentAttendees := 1\<rparr>" and now' = 1600 and n = None,
       THEN conjunct1] in1 ev dto
    by (simp add: demoEvent_def)
  have none: "attendances demoRegistered (dto_eventId demoDto, dto_userId demoDto) = None"
    by (simp add: demoRegistered_def demoStore_def)
  have w2: "AttendanceService_checkOut demoRegistered 1500 demoDto = Inl AttendanceNotFound"
    using attendance_state_machine
      [where s = demoRegistered and now = 1500 and d = demoDto,
       THEN conjunct2, THEN conjunct1] none
    by simp
  have w3: "AttendanceService_checkOut
        (demoRegistered\<lparr>attendances := [(''e1'', ''u1'') \<mapsto>
           \<lparr>checkInTime = None, checkOutTime = None, attendanceStatus = ''REGISTERED'',
            attendanceNotes = None\<rparr>]\<rparr>) 1500 demoDto = Inl NotCheckedIn"
    using attendance_state_machine
      [where s = "demoRegistered\<lparr>attendances := [(''e1'', ''u1'') \<mapsto>
           \<lparr>checkInTime = None, checkOutTime = None, attendanceStatus = ''REGISTERED'',
            attendanceNotes = None\<rparr>]\<rparr>" and now = 1500 and d = demoDto
         and ?a0.0 = "\<lparr>checkInTime = None, checkOutTime = None,
            attendanceStatus = ''REGISTERED'', attendanceNotes = None\<rparr>",
       THEN conjunct2, THEN conjunct2, THEN conjunct1]
    by (simp add: demoDto_def)
  have w4: "AttendanceService_checkOut demoCheckedOut 1800 demoDto = Inl AlreadyCheckedOut"
    using attendance_state_machine
      [where s = demoCheckedIn and now = 1700 and d = demoDto and ?s2.0 = demoCheckedOut
         and now' = 1800 and n = None,
       THEN conjunct2, THEN conjunct2, THEN conjunct2, THEN conjunct1] out1 dto
    by simp
  have cancel: "handle demoPlatform demoCheckedOut 5 (CancelRegistration ''e1'' ''u1'') =
      Inr (Ok, storeAfter demoPlatform demoCheckedOut (5, CancelRegistration ''e1'' ''u1''))"
    by (simp add: storeAfter_def ok_def cancelRegistration_def cancellationTx_def
        eventRegistration_delete_def event_increment_def demoCheckedOut_def demoRegistered_def
        demoStore_def demoEvent_def)
  have att: "attendances demoCheckedOut (''e1'', ''u1'') =
      Some \<lparr>checkInTime = Some 1500, checkOutTime = Some 1700, attendanceStatus = ''CHECKED_OUT'',
        attendanceNotes = None\<rparr>"
    by (simp add: demoCheckedOut_def)
  have w5: "attendances (storeAfter demoPlatform demoCheckedOut (5, CancelRegistration ''e1'' ''u1''))
        (''e1'', ''u1'') = attendances demoCheckedOut (''e1'', ''u1'')"
    using attendance_state_machine
      [where s = demoCheckedOut and now = 5 and k = "(''e1'', ''u1'')" and p = demoPlatform
         and r = "CancelRegistration ''e1'' ''u1''" and x = Ok
         and a = "\<lparr>checkInTime = Some 1500, checkOutTime = Some 1700,
            attendanceStatus = ''CHECKED_OUT'', attendanceNotes = None\<rparr>"
         and ?s3.0 = "storeAfter demoPlatform demoCheckedOut (5, CancelRegistration ''e1'' ''u1'')",
       THEN conjunct2, THEN conjunct2, THEN conjunct2, THEN conjunct2] cancel att
    by (simp add: checkedOut_def)
  have w6: "eventRegistrations (storeAfter demoPlatform demoCheckedOut (5, CancelRegistration ''e1'' ''u1''))
        (''e1'', ''u1'') = None"
    by (simp add: storeAfter_def ok_def cancelRegistration_def cancellationTx_def
        eventRegistration_delete_def event_increment_def demoCheckedOut_def demoRegistered_def
        demoStore_def demoEvent_def)
  from w1 w2 w3 w4 w5 w6 show ?thesis by blast
qed

text \<open>Before any check-in there is no attendance row, and the check-out fails
  \<open>AttendanceNotFound\<close>, not \<open>NotCheckedIn\<close>.\<close>

theorem checkOut_before_checkIn_counterexample:
  "attendances demoRegistered (''e1'', ''u1'') = None
   \<and> AttendanceService_checkOut demoRegistered 1500 demoDto = Inl AttendanceNotFound
   \<and> AttendanceService_checkOut demoRegistered 1500 demoDto \<noteq> Inl NotCheckedIn"
  by (simp add: AttendanceService_checkOut_def checkOut_def demoRegistered_def demoStore_def
      demoDto_def)

section \<open>Check-in and the registration status\<close>

text \<open>What each check-in asks of the registration, on an event that requires one.\<close>

lemma checkIn_needs_confirmed:
  assumes "events s (dto_eventId d) = Some ev" "registrationRequired ev"
  shows "AttendanceService_checkIn s now d = Inr s' \<Longrightarrow>
           map_option registrationStatus (eventRegistrations s (dto_eventId d, dto_userId d))
             = Some ''CONFIRMED''"
    and "eventRegistrations s (dto_eventId d, dto_userId d) = None \<Longrightarrow> isActive ev \<Longrightarrow>
           startDate ev \<le> now \<Longrightarrow> now \<le> endDate ev \<Longrightarrow>
           AttendanceService_checkIn s now d = Inl UserNotRegistered"
    and "eventRegistrations s (dto_eventId d, dto_userId d) = Some r \<Longrightarrow>
           registrationStatus r \<noteq> ''CONFIRMED'' \<Longrightarrow> isActive ev \<Longrightarrow>
           startDate ev \<le> now \<Longrightarrow> now \<le> endDate ev \<Longrightarrow>
           AttendanceService_checkIn s now d = Inl RegistrationNotConfirmed"
  using assms
  by (auto simp: AttendanceService_checkIn_def Let_def split: if_splits option.splits)

lemma markAttendance_needs_confirmed:
  assumes "events s e = Some ev" "registrationRequired ev"
  shows "markAttendance s now e u = Inr s' \<Longrightarrow>
           map_option registrationStatus (eventRegistrations s (e, u)) = Some ''CONFIRMED''"
    and "eventRegistrations s (e, u) = None \<Longrightarrow> isActive ev \<Longrightarrow>
           startDate ev \<le> now \<Longrightarrow> now \<le> endDate ev \<Longrightarrow>
           markAttendance s now e u = Inl UserNotRegistered"
    and "eventRegistrations s (e, u) = Some r \<Longrightarrow>
           registrationStatus r \<noteq> ''CONFIRMED'' \<Longrightarrow> isActive ev \<Longrightarrow>
           startDate ev \<le> now \<Longrightarrow> now \<le> endDate ev \<Longrightarrow>
           markAttendance s now e u = Inl RegistrationNotConfirmed"
  using assms
  by (auto simp: markAttendance_def Let_def split: if_splits option.splits)

lemma EventService_checkIn_needs_registration:
  assumes "events s (dto_eventId d) = Some ev" "registrationRequired ev"
  shows "EventService_checkIn s now d = Inr s' \<Longrightarrow>
           eventRegistrations s (dto_eventId d, dto_userId d) \<noteq> None"
    and "eventRegistrations s (dto_eventId d, dto_userId d) = None \<Longrightarrow> isActive ev \<Longrightarrow>
           startDate ev \<le> now \<Longrightarrow> now \<le> endDate ev \<Longrightarrow>
           EventService_checkIn s now d = Inl UserNotRegistered"
  using assms
  by (auto simp: EventService_checkIn_def Let_def split: if_splits option.splits)

text \<open>In every path a missing registration, or with \<open>AttendanceService.checkIn\<close> and
  \<open>EventService.markAttendance\<close> one that is not confirmed, makes the check-in fail, whatever
  the clock: an earlier check may fail first, with its own error.\<close>

lemma checkIn_never_unregistered:
  assumes "events s (dto_eventId d) = Some ev" "registrationRequired ev"
    "eventRegistrations s (dto_eventId d, dto_userId d) = None"
  shows "isl (AttendanceService_checkIn s now d)"
    and "isl (markAttendance s now (dto_eventId d) (dto_userId d))"
    and "isl (EventService_checkIn s now d)"
  using assms
  by (auto simp: AttendanceService_checkIn_def markAttendance_def EventService_checkIn_def Let_def)

lemma checkIn_never_unconfirmed:
  assumes "events s (dto_eventId d) = Some ev" "registrationRequired ev"
    "eventRegistrations s (dto_eventId d, dto_userId d) = Some r"
    "registrationStatus r \<noteq> ''CONFIRMED''"
  shows "isl (AttendanceService_checkIn s now d)"
    and "isl (markAttendance s now (dto_eventId d) (dto_userId d))"
  using assms
  by (auto simp: AttendanceService_checkIn_def markAttendance_def Let_def)

text \<open>The registrations that the requests write. No request changes the status of a
  registration, and the only one written is \<open>CONFIRMED\<close>.\<close>

lemma registrationTx_registrations:
  "registrationTx s now e u = Inr s' \<Longrightarrow>
     eventRegistrations s' = (eventRegistrations s)((e, u) \<mapsto>
        \<lparr>registrationStatus = ''CONFIRMED'', registrationDate = now\<rparr>)"
  by (auto simp: registrationTx_def eventRegistration_create_def event_increment_def
      split: if_splits option.splits sum.splits)

lemma cancellationTx_registrations:
  "cancellationTx s e u = Inr s' \<Longrightarrow>
     eventRegistrations s' = (eventRegistrations s)((e, u) := None)"
  by (auto simp: cancellationTx_def eventRegistration_delete_def event_increment_def
      split: if_splits option.splits sum.splits)

lemma registerForEvent_confirmed:
  "registerForEvent s now e u = Inr s' \<Longrightarrow> registrationConfirmedAt s k \<Longrightarrow>
     registrationConfirmedAt s' k"
  by (auto simp: registerForEvent_def registrationConfirmedAt_def
      split: if_splits option.splits dest!: registrationTx_registrations)

lemma cancelRegistration_confirmed:
  "cancelRegistration s now e u = Inr s' \<Longrightarrow> registrationConfirmedAt s k \<Longrightarrow>
     registrationConfirmedAt s' k"
  by (auto simp: cancelRegistration_def registrationConfirmedAt_def
      split: if_splits option.splits dest!: cancellationTx_registrations)

lemma EventService_checkIn_registrations:
  "EventService_checkIn s now d = Inr s' \<Longrightarrow> eventRegistrations s' = eventRegistrations s"
  by (auto simp: EventService_checkIn_def Let_def split: if_splits option.splits)

lemma markAttendance_registrations:
  "markAttendance s now e u = Inr s' \<Longrightarrow> eventRegistrations s' = eventRegistrations s"
  by (auto simp: markAttendance_def Let_def split: if_splits option.splits)

lemma AttendanceService_checkIn_registrations:
  "AttendanceService_checkIn s now d = Inr s' \<Longrightarrow> eventRegistrations s' = eventRegistrations s"
  by (auto simp: AttendanceService_checkIn_def Let_def split: if_splits option.splits)

lemma checkOut_registrations:
  "checkOut s now d = Inr s' \<Longrightarrow> eventRegistrations s' = eventRegistrations s"
  by (auto simp: checkOut_def Let_def split: if_splits option.splits)

lemma qrRegisterAndCheckIn_confirmed:
  assumes "qrRegisterAndCheckIn s now e u ev = Inr s'" "registrationConfirmedAt s k"
  shows "registrationConfirmedAt s' k"
proof -
  let ?reg = "if registrationRequired ev \<and> eventRegistrations s (e, u) = None
            then
              if (case registrationDeadline ev of None \<Rightarrow> False | Some d \<Rightarrow> now > d)
                then Inl DeadlinePassed
              else if capacityReached ev then Inl CapacityExceeded
              else registrationTx s now e u
            else Inr s"
  from assms(1) obtain s1 where s1: "?reg = Inr s1"
      and r: "eventRegistrations s' = eventRegistrations s1"
    by (auto simp: qrRegisterAndCheckIn_def Let_def split: if_splits sum.splits option.splits)
  from s1 have "s1 = s \<or> registrationTx s now e u = Inr s1"
    by (auto split: if_splits)
  then show ?thesis
    using r assms(2)
    by (auto simp: registrationConfirmedAt_def dest!: registrationTx_registrations)
qed

lemma validateAndCheckIn_confirmed:
  assumes "validateAndCheckIn s now qr u = Inr s'" "registrationConfirmedAt s k"
  shows "registrationConfirmedAt s' k"
proof -
  from assms(1) obtain e' ev where "qrRegisterAndCheckIn s now e' u ev = Inr s'"
    by (auto simp: validateAndCheckIn_def Let_def split: if_splits option.splits)
  then show ?thesis using assms(2) by (auto dest: qrRegisterAndCheckIn_confirmed)
qed

lemma checkInWithToken_confirmed:
  assumes "checkInWithToken s now e' t u = Inr s'" "registrationConfirmedAt s k"
  shows "registrationConfirmedAt s' k"
proof -
  from assms(1) obtain ev where "qrRegisterAndCheckIn s now e' u ev = Inr s'"
    by (auto simp: checkInWithToken_def split: sum.splits option.splits)
  then show ?thesis using assms(2) by (auto dest: qrRegisterAndCheckIn_confirmed)
qed

lemma registrations_stay_confirmed:
  assumes h: "handle p s now r = Inr (x, s')" and a: "registrationConfirmedAt s k"
  shows "registrationConfirmedAt s' k"
proof (cases r)
  case (UpdateEvent e' d uid role)
  with h a show ?thesis
    by (auto simp: ok_def registrationConfirmedAt_def split: sum.splits dest!: updateEvent_frame)
next
  case (RegisterForEvent e' u)
  with h a show ?thesis by (auto simp: ok_def split: sum.splits dest: registerForEvent_confirmed)
next
  case (CancelRegistration e' u)
  with h a show ?thesis by (auto simp: ok_def split: sum.splits dest: cancelRegistration_confirmed)
next
  case (EventCheckIn d)
  with h a show ?thesis
    by (auto simp: ok_def registrationConfirmedAt_def split: sum.splits
        dest!: EventService_checkIn_registrations)
next
  case (EventCheckOut d)
  with h a show ?thesis
    by (auto simp: ok_def EventService_checkOut_def registrationConfirmedAt_def split: sum.splits
        dest!: checkOut_registrations)
next
  case (MarkAttendance e' u)
  with h a show ?thesis
    by (auto simp: ok_def registrationConfirmedAt_def split: sum.splits
        dest!: markAttendance_registrations)
next
  case (AttendanceCheckIn d)
  with h a show ?thesis
    by (auto simp: ok_def registrationConfirmedAt_def split: sum.splits
        dest!: AttendanceService_checkIn_registrations)
next
  case (AttendanceCheckOut d)
  with h a show ?thesis
    by (auto simp: ok_def AttendanceService_checkOut_def registrationConfirmedAt_def
        split: sum.splits dest!: checkOut_registrations)
next
  case (GenerateEventQR e' hrs)
  with h a show ?thesis
    by (auto simp: registrationConfirmedAt_def split: sum.splits prod.splits
        dest!: generateEventQR_frame)
next
  case (ValidateAndCheckIn qr u)
  with h a show ?thesis by (auto simp: ok_def split: sum.splits dest: validateAndCheckIn_confirmed)
next
  case (RevokeQRCode e')
  with h a show ?thesis
    by (auto simp: ok_def registrationConfirmedAt_def split: sum.splits dest!: revokeQRCode_frame)
next
  case (ValidateCheckinToken e' t)
  with h a show ?thesis by (auto split: sum.splits)
next
  case (CheckInWithToken e' t u)
  with h a show ?thesis by (auto simp: ok_def split: sum.splits dest: checkInWithToken_confirmed)
next
  case CleanupExpiredQRCodes
  with h a show ?thesis by (auto simp: cleanupExpiredQRCodes_def registrationConfirmedAt_def)
qed

text \<open>\<open>EventService.checkIn\<close> tests only that the registration exists
  (\<open>if (!registration)\<close>). On a registration with another status, which no request writes, it
  would check the user in where the other two paths fail; no route calls it.\<close>

lemma EventService_checkIn_ignores_status:
  "AttendanceService_checkIn demoPending 1500 demoDto = Inl RegistrationNotConfirmed
   \<and> markAttendance demoPending 1500 ''e1'' ''u1'' = Inl RegistrationNotConfirmed
   \<and> EventService_checkIn demoPending 1500 demoDto
      = Inr (demoPending\<lparr>attendances := [(''e1'', ''u1'') \<mapsto> newAttendance 1500 None]\<rparr>)"
  by (simp add: AttendanceService_checkIn_def markAttendance_def EventService_checkIn_def
      demoPending_def demoRegistered_def demoStore_def demoEvent_def demoRegistration_def
      demoDto_def Let_def)

text \<open>
  Claim C6. On an event that requires registration: with no registration of the pair every
  check-in (\<open>AttendanceService.checkIn\<close>, \<open>EventService.markAttendance\<close>,
  \<open>EventService.checkIn\<close>) fails, and fails \<open>UserNotRegistered\<close> once the checks before it are
  passed (the event is active and the clock within its time window); with a registration
  whose status is not \<open>CONFIRMED\<close>, \<open>AttendanceService.checkIn\<close> and
  \<open>EventService.markAttendance\<close> fail, and fail \<open>RegistrationNotConfirmed\<close> once those checks
  are passed; and a check-in that succeeds has found a \<open>CONFIRMED\<close> registration, for
  \<open>EventService.checkIn\<close> in a store whose registration of the pair is one the requests
  write (\<open>registrationConfirmedAt\<close>, kept by every request: \<open>registrations_stay_confirmed\<close>).
\<close>

theorem checkIn_requires_confirmed_registration:
  "(events s (dto_eventId d) = Some ev \<and> registrationRequired ev
      \<and> eventRegistrations s (dto_eventId d, dto_userId d) = None
     \<longrightarrow> isl (AttendanceService_checkIn s now d)
         \<and> isl (markAttendance s now (dto_eventId d) (dto_userId d))
         \<and> isl (EventService_checkIn s now d)
         \<and> (isActive ev \<and> startDate ev \<le> now \<and> now \<le> endDate ev
            \<longrightarrow> AttendanceService_checkIn s now d = Inl UserNotRegistered
                \<and> markAttendance s now (dto_eventId d) (dto_userId d) = Inl UserNotRegistered
                \<and> EventService_checkIn s now d = Inl UserNotRegistered))
   \<and> (events s (dto_eventId d) = Some ev \<and> registrationRequired ev
      \<and> eventRegistrations s (dto_eventId d, dto_userId d) = Some r
      \<and> registrationStatus r \<noteq> ''CONFIRMED''
     \<longrightarrow> isl (AttendanceService_checkIn s now d)
         \<and> isl (markAttendance s now (dto_eventId d) (dto_userId d))
         \<and> (isActive ev \<and> startDate ev \<le> now \<and> now \<le> endDate ev
            \<longrightarrow> AttendanceService_checkIn s now d = Inl RegistrationNotConfirmed
                \<and> markAttendance s now (dto_eventId d) (dto_userId d)
                     = Inl RegistrationNotConfirmed))
   \<and> (events s (dto_eventId d) = Some ev \<and> registrationRequired ev
      \<and> AttendanceService_checkIn s now d = Inr s1
     \<longrightarrow> map_option registrationStatus (eventRegistrations s (dto_eventId d, dto_userId d))
           = Some ''CONFIRMED'')
   \<and> (events s (dto_eventId d) = Some ev \<and> registrationRequired ev
      \<and> markAttendance s now (dto_eventId d) (dto_userId d) = Inr s2
     \<longrightarrow> map_option registrationStatus (eventRegistrations s (dto_eventId d, dto_userId d))
           = Some ''CONFIRMED'')
   \<and> (events s (dto_eventId d) = Some ev \<and> registrationRequired ev
      \<and> EventService_checkIn s now d = Inr s3
      \<and> registrationConfirmedAt s (dto_eventId d, dto_userId d)
     \<longrightarrow> map_option registrationStatus (eventRegistrations s (dto_eventId d, dto_userId d))
           = Some ''CONFIRMED'')"
proof -
  let ?k = "(dto_eventId d, dto_userId d)"
  have A: "events s (dto_eventId d) = Some ev \<and> registrationRequired ev
      \<and> eventRegistrations s ?k = None
     \<longrightarrow> isl (AttendanceService_checkIn s now d)
         \<and> isl (markAttendance s now (dto_eventId d) (dto_userId d))
         \<and> isl (EventService_checkIn s now d)
         \<and> (isActive ev \<and> startDate ev \<le> now \<and> now \<le> endDate ev
            \<longrightarrow> AttendanceService_checkIn s now d = Inl UserNotRegistered
                \<and> markAttendance s now (dto_eventId d) (dto_userId d) = Inl UserNotRegistered
                \<and> EventService_checkIn s now d = Inl UserNotRegistered)"
    by (simp add: checkIn_never_unregistered checkIn_needs_confirmed(2)
        markAttendance_needs_confirmed(2) EventService_checkIn_needs_registration(2))
  have B: "events s (dto_eventId d) = Some ev \<and> registrationRequired ev
      \<and> eventRegistrations s ?k = Some r
      \<and> registrationStatus r \<noteq> ''CONFIRMED''
     \<longrightarrow> isl (AttendanceService_checkIn s now d)
         \<and> isl (markAttendance s now (dto_eventId d) (dto_userId d))
         \<and> (isActive ev \<and> startDate ev \<le> now \<and> now \<le> endDate ev
            \<longrightarrow> AttendanceService_checkIn s now d = Inl RegistrationNotConfirmed
                \<and> markAttendance s now (dto_eventId d) (dto_userId d)
                     = Inl RegistrationNotConfirmed)"
    by (simp add: checkIn_never_unconfirmed checkIn_needs_confirmed(3)
        markAttendance_needs_confirmed(3))
  have C: "events s (dto_eventId d) = Some ev \<and> registrationRequired ev
      \<and> AttendanceService_checkIn s now d = Inr s1
     \<longrightarrow> map_option registrationStatus (eventRegistrations s ?k) = Some ''CONFIRMED''"
    using checkIn_needs_confirmed(1) by blast
  have D: "events s (dto_eventId d) = Some ev \<and> registrationRequired ev
      \<and> markAttendance s now (dto_eventId d) (dto_userId d) = Inr s2
     \<longrightarrow> map_option registrationStatus (eventRegistrations s ?k) = Some ''CONFIRMED''"
    using markAttendance_needs_confirmed(1) by blast
  have E: "events s (dto_eventId d) = Some ev \<and> registrationRequired ev
      \<and> EventService_checkIn s now d = Inr s3
      \<and> registrationConfirmedAt s ?k
     \<longrightarrow> map_option registrationStatus (eventRegistrations s ?k) = Some ''CONFIRMED''"
  proof
    assume a: "events s (dto_eventId d) = Some ev \<and> registrationRequired ev
      \<and> EventService_checkIn s now d = Inr s3
      \<and> registrationConfirmedAt s ?k"
    then have "eventRegistrations s ?k \<noteq> None"
      using EventService_checkIn_needs_registration(1) by blast
    with a show "map_option registrationStatus (eventRegistrations s ?k) = Some ''CONFIRMED''"
      by (auto simp: registrationConfirmedAt_def)
  qed
  from A B C D E show ?thesis by (intro conjI)
qed

text \<open>Each part at the example event at 1500: no registration, a registration set to
  \<open>PENDING\<close>, and the confirmed one; before the start and after the end the check-in fails
  as well.\<close>

theorem checkIn_requires_confirmed_registration_witness:
  "AttendanceService_checkIn demoStore 1500 demoDto = Inl UserNotRegistered
   \<and> markAttendance demoStore 1500 ''e1'' ''u1'' = Inl UserNotRegistered
   \<and> EventService_checkIn demoStore 1500 demoDto = Inl UserNotRegistered
   \<and> isl (AttendanceService_checkIn demoStore 500 demoDto)
   \<and> AttendanceService_checkIn demoPending 1500 demoDto = Inl RegistrationNotConfirmed
   \<and> markAttendance demoPending 1500 ''e1'' ''u1'' = Inl RegistrationNotConfirmed
   \<and> isl (markAttendance demoPending 2500 ''e1'' ''u1'')
   \<and> AttendanceService_checkIn demoRegistered 1500 demoDto = Inr demoCheckedIn
   \<and> \<not> isl (markAttendance demoRegistered 1500 ''e1'' ''u1'')
   \<and> \<not> isl (EventService_checkIn demoRegistered 1500 demoDto)
   \<and> registrationConfirmedAt demoRegistered (''e1'', ''u1'')
   \<and> map_option registrationStatus (eventRegistrations demoRegistered (''e1'', ''u1''))
        = Some ''CONFIRMED''"
proof -
  have d: "dto_eventId demoDto = ''e1''" "dto_userId demoDto = ''u1''"
    by (simp_all add: demoDto_def)
  have ev0: "events demoStore ''e1'' = Some demoEvent" "registrationRequired demoEvent"
    "isActive demoEvent" "startDate demoEvent = 1000" "endDate demoEvent = 2000"
    "eventRegistrations demoStore (''e1'', ''u1'') = None"
    by (simp_all add: demoStore_def demoEvent_def)
  have a: "isl (AttendanceService_checkIn demoStore 1500 demoDto)
         \<and> isl (markAttendance demoStore 1500 ''e1'' ''u1'')
         \<and> isl (EventService_checkIn demoStore 1500 demoDto)
         \<and> AttendanceService_checkIn demoStore 1500 demoDto = Inl UserNotRegistered
         \<and> markAttendance demoStore 1500 ''e1'' ''u1'' = Inl UserNotRegistered
         \<and> EventService_checkIn demoStore 1500 demoDto = Inl UserNotRegistered"
    using checkIn_requires_confirmed_registration
      [where s = demoStore and d = demoDto and ev = demoEvent and now = 1500, THEN conjunct1]
      ev0
    by (simp add: d)
  have a': "isl (AttendanceService_checkIn demoStore 500 demoDto)"
    using checkIn_requires_confirmed_registration
      [where s = demoStore and d = demoDto and ev = demoEvent and now = 500, THEN conjunct1]
      ev0
    by (simp add: d)
  have ev1: "events demoPending ''e1'' = Some (demoEvent\<lparr>currentAttendees := 1\<rparr>)"
    "eventRegistrations demoPending (''e1'', ''u1'')
       = Some (demoRegistration\<lparr>registrationStatus := ''PENDING''\<rparr>)"
    by (simp_all add: demoPending_def demoRegistered_def)
  have b: "AttendanceService_checkIn demoPending 1500 demoDto = Inl RegistrationNotConfirmed
         \<and> markAttendance demoPending 1500 ''e1'' ''u1'' = Inl RegistrationNotConfirmed"
    using checkIn_requires_confirmed_registration
      [where s = demoPending and d = demoDto and ev = "demoEvent\<lparr>currentAttendees := 1\<rparr>"
         and r = "demoRegistration\<lparr>registrationStatus := ''PENDING''\<rparr>" and now = 1500,
       THEN conjunct2, THEN conjunct1]
      ev1
    by (simp add: d demoEvent_def)
  have b': "isl (markAttendance demoPending 2500 ''e1'' ''u1'')"
    using checkIn_requires_confirmed_registration
      [where s = demoPending and d = demoDto and ev = "demoEvent\<lparr>currentAttendees := 1\<rparr>"
         and r = "demoRegistration\<lparr>registrationStatus := ''PENDING''\<rparr>" and now = 2500,
       THEN conjunct2, THEN conjunct1]
      ev1
    by (simp add: d demoEvent_def)
  have ev2: "events demoRegistered (dto_eventId demoDto) = Some (demoEvent\<lparr>currentAttendees := 1\<rparr>)"
    "registrationRequired (demoEvent\<lparr>currentAttendees := 1\<rparr>)"
    by (simp_all add: demoRegistered_def demoDto_def demoEvent_def)
  have in1: "AttendanceService_checkIn demoRegistered 1500 demoDto = Inr demoCheckedIn"
    by (simp add: AttendanceService_checkIn_def demoCheckedIn_def demoRegistered_def
        demoStore_def demoEvent_def demoRegistration_def demoDto_def Let_def)
  have c: "map_option registrationStatus
             (eventRegistrations demoRegistered (dto_eventId demoDto, dto_userId demoDto))
           = Some ''CONFIRMED''"
    by (rule checkIn_requires_confirmed_registration
      [where s = demoRegistered and d = demoDto and ev = "demoEvent\<lparr>currentAttendees := 1\<rparr>"
         and now = 1500 and ?s1.0 = demoCheckedIn,
       THEN conjunct2, THEN conjunct2, THEN conjunct1, THEN mp])
      (intro conjI ev2 in1)
  have in2: "\<not> isl (markAttendance demoRegistered 1500 ''e1'' ''u1'')"
    by (simp add: markAttendance_def demoRegistered_def demoStore_def demoEvent_def
        demoRegistration_def Let_def)
  have in2': "markAttendance demoRegistered 1500 (dto_eventId demoDto) (dto_userId demoDto)
       = Inr (projr (markAttendance demoRegistered 1500 ''e1'' ''u1''))"
    unfolding d by (rule right_result [OF in2])
  have c2: "map_option registrationStatus
             (eventRegistrations demoRegistered (dto_eventId demoDto, dto_userId demoDto))
           = Some ''CONFIRMED''"
    by (rule checkIn_requires_confirmed_registration
      [where s = demoRegistered and d = demoDto and ev = "demoEvent\<lparr>currentAttendees := 1\<rparr>"
         and now = 1500 and ?s2.0 = "projr (markAttendance demoRegistered 1500 ''e1'' ''u1'')",
       THEN conjunct2, THEN conjunct2, THEN conjunct2, THEN conjunct1, THEN mp])
      (intro conjI ev2 in2')
  have in3: "\<not> isl (EventService_checkIn demoRegistered 1500 demoDto)"
    by (simp add: EventService_checkIn_def demoRegistered_def demoStore_def demoEvent_def
        demoRegistration_def demoDto_def Let_def)
  have conf: "registrationConfirmedAt demoRegistered (''e1'', ''u1'')"
    by (simp add: registrationConfirmedAt_def demoRegistered_def demoRegistration_def)
  have conf': "registrationConfirmedAt demoRegistered (dto_eventId demoDto, dto_userId demoDto)"
    unfolding d by (rule conf)
  have c3: "map_option registrationStatus
             (eventRegistrations demoRegistered (dto_eventId demoDto, dto_userId demoDto))
           = Some ''CONFIRMED''"
    by (rule checkIn_requires_confirmed_registration
      [where s = demoRegistered and d = demoDto and ev = "demoEvent\<lparr>currentAttendees := 1\<rparr>"
         and now = 1500 and ?s3.0 = "projr (EventService_checkIn demoRegistered 1500 demoDto)",
       THEN conjunct2, THEN conjunct2, THEN conjunct2, THEN conjunct2, THEN mp])
      (intro conjI ev2 right_result [OF in3] conf')
  from a a' b b' in1 in2 in3 conf c c2 c3 show ?thesis
    unfolding d by blast
qed

section \<open>Concurrent registration\<close>

text \<open>Run without interruption, the three store accesses are \<open>registerForEvent\<close>.\<close>

lemma registerStep_sequential:
  "registerStep now e u (registerStep now e u (registerStep now e u (AtStart, s))) =
     (case registerForEvent s now e u of
        Inl x \<Rightarrow> (Finished (Inl x), s)
      | Inr s' \<Rightarrow> (Finished (Inr ()), s'))"
  by (simp add: registerForEvent_def split: option.splits sum.splits)

text \<open>
  Claim C2. The event has one place and nobody is registered. Both requests read the
  event and pass the capacity check before either commits; both transactions then commit.
  Two \<open>CONFIRMED\<close> registrations exist, the counter is 2 and no request failed
  \<open>CapacityExceeded\<close>: the capacity check is not part of the transaction.
\<close>

theorem register_race_overbooks:
  "(let c = runSchedule 5 ''e1'' ''uA'' ''uB'' demoStore [True, True, False, False, True, False] in
     first c = Finished (Inr ()) \<and> second c = Finished (Inr ())
     \<and> map_option maxAttendees (events (shared c) ''e1'') = Some (Some 1)
     \<and> map_option currentAttendees (events (shared c) ''e1'') = Some 2
     \<and> confirmedCount (shared c) ''e1'' [''uA'', ''uB''] = 2)"
  by (simp add: runSchedule_def turn_def demoStore_def demoEvent_def capacityReached_def
      registrationTx_def eventRegistration_create_def event_increment_def confirmedCount_def)

section \<open>The capacity invariant under the public operations\<close>

lemma registrationTx_events:
  "registrationTx s now e u = Inr s' \<Longrightarrow> events s e = Some ev \<Longrightarrow>
     events s' = (events s)(e \<mapsto> ev\<lparr>currentAttendees := currentAttendees ev + 1\<rparr>)"
  by (auto simp: registrationTx_def eventRegistration_create_def event_increment_def
      split: if_splits option.splits sum.splits)

lemma registerForEvent_capacity:
  assumes "registerForEvent s now e' u = Inr s'" "capacityInvariantAt s e"
  shows "capacityInvariantAt s' e"
  using assms
  by (auto simp: registerForEvent_def capacityInvariantAt_def capacityInvariant_def
      capacityReached_def split: if_splits option.splits dest!: registrationTx_events)

lemma cancelRegistration_capacity:
  assumes "cancelRegistration s now e' u = Inr s'" "capacityInvariantAt s e"
    "keepsCapacity s e (CancelRegistration e' u)"
  shows "capacityInvariantAt s' e"
  using assms
  by (auto simp: cancelRegistration_def cancellationTx_def eventRegistration_delete_def
      event_increment_def capacityInvariantAt_def capacityInvariant_def keepsCapacity_def
      split: if_splits option.splits sum.splits)

lemma applyUpdate_capacity_fields:
  "currentAttendees (applyUpdate d ev) =
     (case upd_currentAttendees d of None \<Rightarrow> currentAttendees ev | Some c \<Rightarrow> c)"
  "maxAttendees (applyUpdate d ev) =
     (case upd_maxAttendees d of None \<Rightarrow> maxAttendees ev | Some m \<Rightarrow> Some m)"
  by (simp_all add: applyUpdate_def)

lemma updateEvent_events:
  "updateEvent s e' d uid role = Inr s' \<Longrightarrow>
     (\<exists>ev. events s e' = Some ev \<and> events s' = (events s)(e' \<mapsto> applyUpdate d ev))"
  by (auto simp: updateEvent_def split: if_splits option.splits)

lemma updateEvent_capacity:
  assumes "updateEvent s e' d uid role = Inr s'" "capacityInvariantAt s e"
    "keepsCapacity s e (UpdateEvent e' d uid role)"
  shows "capacityInvariantAt s' e"
proof -
  from updateEvent_events [OF assms(1)] obtain ev where
    ev: "events s e' = Some ev" "events s' = (events s)(e' \<mapsto> applyUpdate d ev)" by blast
  show ?thesis
  proof (cases "e' = e")
    case False
    with ev assms(2) show ?thesis by (simp add: capacityInvariantAt_def)
  next
    case True
    with ev assms(2,3) show ?thesis
      by (auto simp: capacityInvariantAt_def capacityInvariant_def keepsCapacity_def
          applyUpdate_capacity_fields split: option.splits)
  qed
qed

lemma EventService_checkIn_events: "EventService_checkIn s now d = Inr s' \<Longrightarrow> events s' = events s"
  by (auto simp: EventService_checkIn_def Let_def split: if_splits option.splits)

lemma markAttendance_events: "markAttendance s now e u = Inr s' \<Longrightarrow> events s' = events s"
  by (auto simp: markAttendance_def Let_def split: if_splits option.splits)

lemma AttendanceService_checkIn_events:
  "AttendanceService_checkIn s now d = Inr s' \<Longrightarrow> events s' = events s"
  by (auto simp: AttendanceService_checkIn_def Let_def split: if_splits option.splits)

lemma checkOut_events: "checkOut s now d = Inr s' \<Longrightarrow> events s' = events s"
  by (auto simp: checkOut_def Let_def split: if_splits option.splits)

lemma increment_capacity:
  assumes "capacityInvariantAt s e" "events s e' = Some ev" "\<not> capacityReached ev"
    "events s' = (events s)(e' \<mapsto> ev\<lparr>currentAttendees := currentAttendees ev + 1\<rparr>)"
  shows "capacityInvariantAt s' e"
  using assms
  by (auto simp: capacityInvariantAt_def capacityInvariant_def capacityReached_def
      split: option.splits)

lemma same_events_capacity:
  "capacityInvariantAt s e \<Longrightarrow> events s' = events s \<Longrightarrow> capacityInvariantAt s' e"
  by (simp add: capacityInvariantAt_def)

lemma qrRegisterAndCheckIn_events:
  assumes "qrRegisterAndCheckIn s now e u ev = Inr s'" "events s e = Some ev"
  shows "events s' = events s \<or>
         (\<not> capacityReached ev \<and>
          events s' = (events s)(e \<mapsto> ev\<lparr>currentAttendees := currentAttendees ev + 1\<rparr>))"
proof -
  let ?reg = "if registrationRequired ev \<and> eventRegistrations s (e, u) = None
            then
              if (case registrationDeadline ev of None \<Rightarrow> False | Some d \<Rightarrow> now > d)
                then Inl DeadlinePassed
              else if capacityReached ev then Inl CapacityExceeded
              else registrationTx s now e u
            else Inr s"
  from assms(1) obtain s1 where s1: "?reg = Inr s1" and ev': "events s' = events s1"
    by (auto simp: qrRegisterAndCheckIn_def Let_def split: if_splits sum.splits option.splits)
  from s1 have "s1 = s \<or> (\<not> capacityReached ev \<and> registrationTx s now e u = Inr s1)"
    by (auto split: if_splits)
  then show ?thesis
    using ev' registrationTx_events [OF _ assms(2), of now u s1] by auto
qed

lemma qrRegisterAndCheckIn_capacity:
  assumes "qrRegisterAndCheckIn s now e' u ev = Inr s'" "events s e' = Some ev"
    "capacityInvariantAt s e"
  shows "capacityInvariantAt s' e"
  using qrRegisterAndCheckIn_events [OF assms(1,2)] assms(2,3)
  by (auto intro: increment_capacity same_events_capacity)

lemma validateAndCheckIn_capacity:
  assumes "validateAndCheckIn s now qr u = Inr s'" "capacityInvariantAt s e"
  shows "capacityInvariantAt s' e"
proof -
  from assms(1) obtain e' ev where "events s e' = Some ev"
      "qrRegisterAndCheckIn s now e' u ev = Inr s'"
    by (auto simp: validateAndCheckIn_def Let_def split: if_splits option.splits)
  then show ?thesis using assms(2) by (auto dest: qrRegisterAndCheckIn_capacity)
qed

lemma checkInWithToken_capacity:
  assumes "checkInWithToken s now e' t u = Inr s'" "capacityInvariantAt s e"
  shows "capacityInvariantAt s' e"
proof -
  from assms(1) obtain ev where "events s e' = Some ev"
      "qrRegisterAndCheckIn s now e' u ev = Inr s'"
    by (auto simp: checkInWithToken_def split: sum.splits option.splits)
  then show ?thesis using assms(2) by (auto dest: qrRegisterAndCheckIn_capacity)
qed

lemma capacity_step:
  assumes h: "handle p s now r = Inr (x, s')"
    and a: "capacityInvariantAt s e" "keepsCapacity s e r"
  shows "capacityInvariantAt s' e"
proof (cases r)
  case (UpdateEvent e' d uid role)
  with h a show ?thesis by (auto simp: ok_def split: sum.splits dest: updateEvent_capacity)
next
  case (RegisterForEvent e' u)
  with h a show ?thesis by (auto simp: ok_def split: sum.splits dest: registerForEvent_capacity)
next
  case (CancelRegistration e' u)
  with h a show ?thesis by (auto simp: ok_def split: sum.splits dest: cancelRegistration_capacity)
next
  case (EventCheckIn d)
  with h a show ?thesis
    by (auto simp: ok_def capacityInvariantAt_def split: sum.splits dest!: EventService_checkIn_events)
next
  case (EventCheckOut d)
  with h a show ?thesis
    by (auto simp: ok_def EventService_checkOut_def capacityInvariantAt_def split: sum.splits
        dest!: checkOut_events)
next
  case (MarkAttendance e' u)
  with h a show ?thesis
    by (auto simp: ok_def capacityInvariantAt_def split: sum.splits dest!: markAttendance_events)
next
  case (AttendanceCheckIn d)
  with h a show ?thesis
    by (auto simp: ok_def capacityInvariantAt_def split: sum.splits
        dest!: AttendanceService_checkIn_events)
next
  case (AttendanceCheckOut d)
  with h a show ?thesis
    by (auto simp: ok_def AttendanceService_checkOut_def capacityInvariantAt_def split: sum.splits
        dest!: checkOut_events)
next
  case (GenerateEventQR e' hrs)
  with h a show ?thesis
    by (auto simp: capacityInvariantAt_def split: sum.splits prod.splits dest!: generateEventQR_frame)
next
  case (ValidateAndCheckIn qr u)
  with h a show ?thesis by (auto simp: ok_def split: sum.splits dest: validateAndCheckIn_capacity)
next
  case (RevokeQRCode e')
  with h a show ?thesis
    by (auto simp: ok_def capacityInvariantAt_def split: sum.splits dest!: revokeQRCode_frame)
next
  case (ValidateCheckinToken e' t)
  with h a show ?thesis by (auto split: sum.splits)
next
  case (CheckInWithToken e' t u)
  with h a show ?thesis by (auto simp: ok_def split: sum.splits dest: checkInWithToken_capacity)
next
  case CleanupExpiredQRCodes
  with h a show ?thesis by (auto simp: cleanupExpiredQRCodes_def capacityInvariantAt_def)
qed

lemma capacity_storeAfter:
  assumes "capacityInvariantAt s e" "keepsCapacity s e (snd r)"
  shows "capacityInvariantAt (storeAfter p s r) e"
proof (cases "handle p s (fst r) (snd r)")
  case (Inl err)
  with assms show ?thesis by (simp add: storeAfter_def)
next
  case (Inr y)
  then obtain x s' where "handle p s (fst r) (snd r) = Inr (x, s')" by (cases y) auto
  with assms capacity_step [of p s "fst r" "snd r" x s' e] show ?thesis
    by (simp add: storeAfter_def)
qed

text \<open>An update whose body carries neither a capacity nor a counter is among the
  requests that keep the invariant.\<close>

lemma plain_update_keepsCapacity:
  assumes "capacityInvariantAt s e" "upd_maxAttendees d = None" "upd_currentAttendees d = None"
  shows "keepsCapacity s e (UpdateEvent e' d uid role)"
  using assms
  by (auto simp: keepsCapacity_def capacityInvariantAt_def capacityInvariant_def
      split: option.splits)

text \<open>
  Claim C1, as amended. For every event whose \<open>maxAttendees\<close> is set and not zero, the
  invariant \<open>0 \<le> currentAttendees \<le> maxAttendees\<close> holds in every state reached from a state
  satisfying it by registrations, check-ins, check-outs, QR check-ins with their automatic
  registration and QR-code operations, by cancellations that find \<open>currentAttendees \<ge> 1\<close>, and
  by event updates that leave the event, with the \<open>maxAttendees\<close> and the \<open>currentAttendees\<close>
  of the request body in place of the row's, without a \<open>maxAttendees\<close> or with one that is
  not zero and a \<open>currentAttendees\<close> between 0 and it.
\<close>

theorem capacity_invariant_preserved:
  "capacityInvariantAt s e \<Longrightarrow> keepsCapacityAll p s e rs \<Longrightarrow>
     capacityInvariantAt (foldl (storeAfter p) s rs) e"
proof (induction rs arbitrary: s)
  case Nil
  then show ?case by simp
next
  case (Cons r rs)
  then show ?case by (simp add: capacity_storeAfter)
qed

theorem capacity_invariant_preserved_witness:
  "capacityInvariantAt demoStore ''e1''
   \<and> keepsCapacityAll demoPlatform demoStore ''e1'' demoRequests
   \<and> capacityInvariantAt (foldl (storeAfter demoPlatform) demoStore demoRequests) ''e1''"
proof -
  have i: "capacityInvariantAt demoStore ''e1''"
    by (simp add: capacityInvariantAt_def capacityInvariant_def demoStore_def demoEvent_def)
  have k: "keepsCapacityAll demoPlatform demoStore ''e1'' demoRequests"
    by (simp add: demoRequests_def keepsCapacity_def storeAfter_def ok_def
        registerForEvent_def cancelRegistration_def capacityReached_def registrationTx_def
        cancellationTx_def eventRegistration_create_def eventRegistration_delete_def
        event_increment_def updateEvent_def applyUpdate_def emptyUpdate_def
        demoStore_def demoEvent_def)
  from capacity_invariant_preserved [OF i k] i k show ?thesis by simp
qed

text \<open>An update may set the capacity below the counter: three are registered, the
  capacity goes from 5 to 2, and the invariant is lost.\<close>

theorem updateEvent_lowers_capacity_counterexample:
  "capacityInvariant (demoEvent\<lparr>maxAttendees := Some 5, currentAttendees := 3\<rparr>)
   \<and> handle demoPlatform
        (demoStore\<lparr>events := [''e1'' \<mapsto> demoEvent\<lparr>maxAttendees := Some 5, currentAttendees := 3\<rparr>]\<rparr>)
        0 (UpdateEvent ''e1'' (emptyUpdate\<lparr>upd_maxAttendees := Some 2\<rparr>) ''admin'' ''ADMIN'')
      = Inr (Ok, demoStore\<lparr>events :=
               [''e1'' \<mapsto> demoEvent\<lparr>maxAttendees := Some 2, currentAttendees := 3\<rparr>]\<rparr>)
   \<and> \<not> capacityInvariant (demoEvent\<lparr>maxAttendees := Some 2, currentAttendees := 3\<rparr>)"
  by (simp add: capacityInvariant_def ok_def updateEvent_def applyUpdate_def emptyUpdate_def
      demoStore_def demoEvent_def)

text \<open>The body is written unfiltered: one that carries \<open>currentAttendees\<close> and leaves the
  capacity alone sets the counter, here from 3 to 99 with a capacity of 5.\<close>

lemma updateEvent_writes_counter:
  "handle demoPlatform
        (demoStore\<lparr>events := [''e1'' \<mapsto> demoEvent\<lparr>maxAttendees := Some 5, currentAttendees := 3\<rparr>]\<rparr>)
        0 (UpdateEvent ''e1'' (emptyUpdate\<lparr>upd_currentAttendees := Some 99\<rparr>) ''admin'' ''ADMIN'')
      = Inr (Ok, demoStore\<lparr>events :=
               [''e1'' \<mapsto> demoEvent\<lparr>maxAttendees := Some 5, currentAttendees := 99\<rparr>]\<rparr>)
   \<and> \<not> capacityInvariant (demoEvent\<lparr>maxAttendees := Some 5, currentAttendees := 99\<rparr>)"
  by (simp add: capacityInvariant_def ok_def updateEvent_def applyUpdate_def emptyUpdate_def
      demoStore_def demoEvent_def)

text \<open>A cancellation that finds the counter at 0 (a registration stored without its
  increment, as the seed script stores them) takes it to -1.\<close>

lemma cancellation_below_zero:
  "capacityInvariant demoEvent
   \<and> cancelRegistration (demoStore\<lparr>eventRegistrations := [(''e1'', ''u1'') \<mapsto> demoRegistration]\<rparr>)
        5 ''e1'' ''u1''
      = Inr (demoStore\<lparr>events := [''e1'' \<mapsto> demoEvent\<lparr>currentAttendees := - 1\<rparr>]\<rparr>)
   \<and> \<not> capacityInvariant (demoEvent\<lparr>currentAttendees := - 1\<rparr>)"
  by (simp add: capacityInvariant_def cancelRegistration_def cancellationTx_def
      eventRegistration_delete_def event_increment_def demoStore_def demoEvent_def)

section \<open>The capacities that the routes admit\<close>

text \<open>Registration, cancellation and the check-ins leave the capacity of every event as it
  is; an update writes the capacity of its body, which the route has validated.\<close>

lemma cancellationTx_events:
  "cancellationTx s e u = Inr s' \<Longrightarrow> events s e = Some ev \<Longrightarrow>
     events s' = (events s)(e \<mapsto> ev\<lparr>currentAttendees := currentAttendees ev + (- 1)\<rparr>)"
  by (auto simp: cancellationTx_def eventRegistration_delete_def event_increment_def
      split: if_splits option.splits sum.splits)

lemma registerForEvent_maxAttendees:
  "registerForEvent s now e' u = Inr s' \<Longrightarrow>
     map_option maxAttendees (events s' e) = map_option maxAttendees (events s e)"
  by (auto simp: registerForEvent_def split: if_splits option.splits dest!: registrationTx_events)

lemma cancelRegistration_maxAttendees:
  "cancelRegistration s now e' u = Inr s' \<Longrightarrow>
     map_option maxAttendees (events s' e) = map_option maxAttendees (events s e)"
  by (auto simp: cancelRegistration_def split: if_splits option.splits dest!: cancellationTx_events)

lemma qrRegisterAndCheckIn_maxAttendees:
  assumes "qrRegisterAndCheckIn s now e' u ev = Inr s'" "events s e' = Some ev"
  shows "map_option maxAttendees (events s' e) = map_option maxAttendees (events s e)"
  using qrRegisterAndCheckIn_events [OF assms] assms(2) by auto

lemma validateAndCheckIn_maxAttendees:
  assumes "validateAndCheckIn s now qr u = Inr s'"
  shows "map_option maxAttendees (events s' e) = map_option maxAttendees (events s e)"
proof -
  from assms obtain e' ev where "events s e' = Some ev"
      "qrRegisterAndCheckIn s now e' u ev = Inr s'"
    by (auto simp: validateAndCheckIn_def Let_def split: if_splits option.splits)
  then show ?thesis by (auto dest: qrRegisterAndCheckIn_maxAttendees)
qed

lemma checkInWithToken_maxAttendees:
  assumes "checkInWithToken s now e' t u = Inr s'"
  shows "map_option maxAttendees (events s' e) = map_option maxAttendees (events s e)"
proof -
  from assms obtain ev where "events s e' = Some ev"
      "qrRegisterAndCheckIn s now e' u ev = Inr s'"
    by (auto simp: checkInWithToken_def split: sum.splits option.splits)
  then show ?thesis by (auto dest: qrRegisterAndCheckIn_maxAttendees)
qed

lemma updateEvent_validated:
  assumes "updateEvent s e' d uid role = Inr s'" "capacityAsValidated s e"
    "validMaxAttendees (upd_maxAttendees d)"
  shows "capacityAsValidated s' e"
proof -
  from updateEvent_events [OF assms(1)] obtain ev where
    ev: "events s e' = Some ev" "events s' = (events s)(e' \<mapsto> applyUpdate d ev)" by blast
  with assms(2,3) show ?thesis
    by (auto simp: capacityAsValidated_def applyUpdate_capacity_fields validMaxAttendees_def
        split: option.splits)
qed

lemma same_capacity_validated:
  "capacityAsValidated s e \<Longrightarrow>
   map_option maxAttendees (events s' e) = map_option maxAttendees (events s e) \<Longrightarrow>
   capacityAsValidated s' e"
  by (auto simp: capacityAsValidated_def split: option.splits)

text \<open>A capacity that the validators admit stays one under every validated request.\<close>

lemma validated_capacity_kept:
  assumes h: "handle p s now r = Inr (x, s')"
    and a: "capacityAsValidated s e" "validatedRequest r"
  shows "capacityAsValidated s' e"
proof (cases r)
  case (UpdateEvent e' d uid role)
  with h a show ?thesis
    by (auto simp: ok_def validatedRequest_def split: sum.splits dest: updateEvent_validated)
next
  case (RegisterForEvent e' u)
  with h have "registerForEvent s now e' u = Inr s'" by (auto simp: ok_def split: sum.splits)
  from registerForEvent_maxAttendees [OF this] a(1) show ?thesis
    by (rule same_capacity_validated [rotated])
next
  case (CancelRegistration e' u)
  with h have "cancelRegistration s now e' u = Inr s'" by (auto simp: ok_def split: sum.splits)
  from cancelRegistration_maxAttendees [OF this] a(1) show ?thesis
    by (rule same_capacity_validated [rotated])
next
  case (EventCheckIn d)
  with h a show ?thesis
    by (auto simp: ok_def capacityAsValidated_def split: sum.splits dest!: EventService_checkIn_events)
next
  case (EventCheckOut d)
  with h a show ?thesis
    by (auto simp: ok_def EventService_checkOut_def capacityAsValidated_def split: sum.splits
        dest!: checkOut_events)
next
  case (MarkAttendance e' u)
  with h a show ?thesis
    by (auto simp: ok_def capacityAsValidated_def split: sum.splits dest!: markAttendance_events)
next
  case (AttendanceCheckIn d)
  with h a show ?thesis
    by (auto simp: ok_def capacityAsValidated_def split: sum.splits
        dest!: AttendanceService_checkIn_events)
next
  case (AttendanceCheckOut d)
  with h a show ?thesis
    by (auto simp: ok_def AttendanceService_checkOut_def capacityAsValidated_def split: sum.splits
        dest!: checkOut_events)
next
  case (GenerateEventQR e' hrs)
  with h a show ?thesis
    by (auto simp: capacityAsValidated_def split: sum.splits prod.splits dest!: generateEventQR_frame)
next
  case (ValidateAndCheckIn qr u)
  with h have "validateAndCheckIn s now qr u = Inr s'" by (auto simp: ok_def split: sum.splits)
  from validateAndCheckIn_maxAttendees [OF this] a(1) show ?thesis
    by (rule same_capacity_validated [rotated])
next
  case (RevokeQRCode e')
  with h a show ?thesis
    by (auto simp: ok_def capacityAsValidated_def split: sum.splits dest!: revokeQRCode_frame)
next
  case (ValidateCheckinToken e' t)
  with h a show ?thesis by (auto split: sum.splits)
next
  case (CheckInWithToken e' t u)
  with h have "checkInWithToken s now e' t u = Inr s'" by (auto simp: ok_def split: sum.splits)
  from checkInWithToken_maxAttendees [OF this] a(1) show ?thesis
    by (rule same_capacity_validated [rotated])
next
  case CleanupExpiredQRCodes
  with h a show ?thesis by (auto simp: cleanupExpiredQRCodes_def capacityAsValidated_def)
qed

text \<open>Such a capacity is not zero: the stores that the routes produce are among those of
  the registration contract.\<close>

lemma validated_capacity_nonzero:
  "capacityAsValidated s e \<Longrightarrow>
     (case events s e of None \<Rightarrow> True | Some ev \<Rightarrow> maxAttendees ev \<noteq> Some 0)"
  by (auto simp: capacityAsValidated_def validMaxAttendees_def split: option.splits)

section \<open>Automatic registration at a QR check-in\<close>

text \<open>A QR check-in of an unregistered user, when it succeeds on an event that requires
  registration: the capacity was not reached and the deadline not passed; the user has a
  \<open>CONFIRMED\<close> registration, the counter is one higher and the user is checked in.\<close>

lemma qr_auto_registration:
  assumes "qrRegisterAndCheckIn s now e u ev = Inr s'" "events s e = Some ev"
    "registrationRequired ev" "eventRegistrations s (e, u) = None"
  shows "\<not> capacityReached ev
     \<and> (case registrationDeadline ev of None \<Rightarrow> True | Some d \<Rightarrow> now \<le> d)
     \<and> eventRegistrations s' (e, u) =
          Some \<lparr>registrationStatus = ''CONFIRMED'', registrationDate = now\<rparr>
     \<and> events s' e = Some (ev\<lparr>currentAttendees := currentAttendees ev + 1\<rparr>)
     \<and> map_option attendanceStatus (attendances s' (e, u)) = Some ''CHECKED_IN''"
proof -
  have tx: "registrationTx s now e u =
     Inr (s\<lparr>eventRegistrations := (eventRegistrations s)((e, u) \<mapsto>
                \<lparr>registrationStatus = ''CONFIRMED'', registrationDate = now\<rparr>),
             events := (events s)(e \<mapsto> ev\<lparr>currentAttendees := currentAttendees ev + 1\<rparr>)\<rparr>)"
    using assms(2,4) by (simp add: registrationTx_fresh)
  show ?thesis
    using assms
    by (auto simp: qrRegisterAndCheckIn_def Let_def tx newAttendance_def
        split: if_splits option.splits)
qed

lemma split_demoToken: "split_on CHR '':'' demoToken = [''event-checkin'', ''e1'', ''1000'', ''00ff'']"
  by (simp add: demoToken_def)

text \<open>
  Claim C4. The automatic registration of \<open>checkInWithToken\<close> is to fail \<open>DeadlinePassed\<close>
  under the same condition as \<open>Register\<close>. At the deadline itself (\<open>now = 1500\<close>)
  \<open>registerForEvent\<close> fails \<open>DeadlinePassed\<close>, its test being \<open>registrationDeadline \<le> now\<close>;
  \<open>checkInWithToken\<close> tests \<open>now > registrationDeadline\<close>, registers the user with a
  \<open>CONFIRMED\<close> registration, raises the counter by one and checks the user in. One
  millisecond later it fails \<open>DeadlinePassed\<close> too.
\<close>

theorem checkInWithToken_deadline_boundary:
  "registerForEvent deadlineStore 1500 ''e2'' ''u1'' = Inl DeadlinePassed
   \<and> checkInWithToken deadlineStore 1500 ''e1'' demoToken ''u1'' =
       Inr (deadlineStore\<lparr>
              events := (events deadlineStore)(''e1'' \<mapsto>
                 demoEvent\<lparr>registrationDeadline := Some 1500, currentAttendees := 1\<rparr>),
              eventRegistrations := [(''e1'', ''u1'') \<mapsto>
                 \<lparr>registrationStatus = ''CONFIRMED'', registrationDate = 1500\<rparr>],
              attendances := [(''e1'', ''u1'') \<mapsto> newAttendance 1500 None]\<rparr>)
   \<and> checkInWithToken deadlineStore 1501 ''e1'' demoToken ''u1'' = Inl DeadlinePassed"
proof -
  have r: "registerForEvent deadlineStore 1500 ''e2'' ''u1'' = Inl DeadlinePassed"
    by (simp add: registerForEvent_def deadlineStore_def demoStore_def demoEvent_def)
  have v: "\<not> isl (validateCheckinToken deadlineStore 1500 ''e1'' demoToken)"
       "\<not> isl (validateCheckinToken deadlineStore 1501 ''e1'' demoToken)"
    by (simp_all add: validateCheckinToken_def split_demoToken findActiveQRCode_def
        deadlineStore_def demoStore_def demoEvent_def demoQRCode_def Let_def)
  have c: "checkInWithToken deadlineStore 1500 ''e1'' demoToken ''u1'' =
       Inr (deadlineStore\<lparr>
              events := (events deadlineStore)(''e1'' \<mapsto>
                 demoEvent\<lparr>registrationDeadline := Some 1500, currentAttendees := 1\<rparr>),
              eventRegistrations := [(''e1'', ''u1'') \<mapsto>
                 \<lparr>registrationStatus = ''CONFIRMED'', registrationDate = 1500\<rparr>],
              attendances := [(''e1'', ''u1'') \<mapsto> newAttendance 1500 None]\<rparr>)"
    using v(1)
    by (cases "validateCheckinToken deadlineStore 1500 ''e1'' demoToken")
       (simp_all add: checkInWithToken_def qrRegisterAndCheckIn_def capacityReached_def
        registrationTx_def eventRegistration_create_def event_increment_def
        deadlineStore_def demoStore_def demoEvent_def Let_def)
  have d: "checkInWithToken deadlineStore 1501 ''e1'' demoToken ''u1'' = Inl DeadlinePassed"
    using v(2)
    by (cases "validateCheckinToken deadlineStore 1501 ''e1'' demoToken")
       (simp_all add: checkInWithToken_def qrRegisterAndCheckIn_def capacityReached_def
        deadlineStore_def demoStore_def demoEvent_def Let_def)
  from r c d show ?thesis by blast
qed

section \<open>Splitting and numbers in text\<close>

lemma split_on_nonempty: "split_on c xs \<noteq> []"
  by (induction xs) (auto split: list.splits)

lemma split_on_free: "c \<notin> set a \<Longrightarrow> split_on c a = [a]"
  by (induction a) auto

lemma split_on_append: "split_on c (a @ c # b) = split_on c a @ split_on c b"
proof (induction a)
  case Nil
  then show ?case by simp
next
  case (Cons x a)
  then show ?case
    using split_on_nonempty [of c a] by (cases "split_on c a") auto
qed

lemma split_on_head: "c \<notin> set a \<Longrightarrow> split_on c (a @ c # b) = a # split_on c b"
  by (simp add: split_on_append split_on_free)

text \<open>Decimal digits contain neither separator nor sign, and a number can be read back
  from them.\<close>

lemma of_char_digitChar: "d < 10 \<Longrightarrow> of_char (digitChar d) = (48 + d :: nat)"
  by (simp add: digitChar_def)

lemma digitChar_plain: "d < 10 \<Longrightarrow> digitChar d \<noteq> CHR '':'' \<and> digitChar d \<noteq> CHR ''-''"
proof -
  assume d: "d < 10"
  have "of_char (digitChar d) \<noteq> (58 :: nat)" "of_char (digitChar d) \<noteq> (45 :: nat)"
    using d by (simp_all add: of_char_digitChar)
  then show ?thesis by auto
qed

lemma natDigits_plain: "CHR '':'' \<notin> set (natDigits n) \<and> CHR ''-'' \<notin> set (natDigits n)"
proof (induction n rule: natDigits.induct)
  case (1 n)
  show ?case
  proof (cases "n < 10")
    case True
    then show ?thesis using digitChar_plain [of n] by (subst (1 2) natDigits.simps) auto
  next
    case False
    then show ?thesis
      using 1 digitChar_plain [of "n mod 10"] by (subst (1 2) natDigits.simps) auto
  qed
qed




lemma numberToString_plain: "CHR '':'' \<notin> set (numberToString i)"
  using natDigits_plain by (simp add: numberToString_def)





lemma split_tagged:
  assumes "CHR '':'' \<notin> set e"
  shows "split_on CHR '':'' (''event-checkin:'' @ e @ '':'' @ rest) =
           ''event-checkin'' # e # split_on CHR '':'' rest"
proof -
  have a: "split_on CHR '':'' (''event-checkin'' @ CHR '':'' # (e @ CHR '':'' # rest)) =
      ''event-checkin'' # split_on CHR '':'' (e @ CHR '':'' # rest)"
    by (rule split_on_head) simp
  have b: "split_on CHR '':'' (e @ CHR '':'' # rest) = e # split_on CHR '':'' rest"
    using assms by (rule split_on_head)
  have "''event-checkin:'' @ e @ '':'' @ rest = ''event-checkin'' @ CHR '':'' # (e @ CHR '':'' # rest)"
    by simp
  with a b show ?thesis by (simp only:)
qed

lemma split_secureToken:
  assumes "CHR '':'' \<notin> set e"
  shows "split_on CHR '':'' (secureToken p e t) =
     ''event-checkin'' # e # numberToString t #
       split_on CHR '':'' (hmacSha256Hex p (qrSecret p) (secureData e t))"
proof -
  have "secureToken p e t = ''event-checkin:'' @ e @ '':'' @
      (numberToString t @ CHR '':'' # hmacSha256Hex p (qrSecret p) (secureData e t))"
    by (simp add: secureToken_def secureData_def)
  moreover have "split_on CHR '':''
      (numberToString t @ CHR '':'' # hmacSha256Hex p (qrSecret p) (secureData e t)) =
      numberToString t # split_on CHR '':'' (hmacSha256Hex p (qrSecret p) (secureData e t))"
    by (rule split_on_head) (rule numberToString_plain)
  ultimately show ?thesis using split_tagged [OF assms] by (simp only:)
qed

lemma split_with_signature:
  assumes "CHR '':'' \<notin> set e"
  shows "split_on CHR '':'' (''event-checkin:'' @ e @ '':'' @ ts @ '':'' @ sg) =
           ''event-checkin'' # e # split_on CHR '':'' ts @ split_on CHR '':'' sg"
  using split_tagged [OF assms, of "ts @ '':'' @ sg"] by (simp add: split_on_append)

lemma numberToString_900: "numberToString 900 = ''900''"
  by code_simp

lemma numberToString_950: "numberToString 950 = ''950''"
  by code_simp

lemma numberToString_1500: "numberToString 1500 = ''1500''"
  by code_simp

lemma demo_secureToken: "secureToken demoPlatform ''e1'' 900 = ''event-checkin:e1:900:00ff''"
  by (simp add: secureToken_def secureData_def demoPlatform_def numberToString_900)

lemma demo_secureToken_1500: "secureToken demoPlatform ''e1'' 1500 = ''event-checkin:e1:1500:00ff''"
  by (simp add: secureToken_def secureData_def demoPlatform_def numberToString_1500)

lemma split_900: "split_on CHR '':'' ''event-checkin:e1:900:00ff'' = [''event-checkin'', ''e1'', ''900'', ''00ff'']"
  by simp

section \<open>Issuing a token\<close>

lemma deactivated_inactive:
  "q \<in> set (deactivateEventQRCodes e qs) \<Longrightarrow> \<not> (qrEventId q = e \<and> qrIsActive q)"
  by (induction qs) (auto simp: deactivateEventQRCodes_def split: if_splits)



lemma find_none_then:
  "\<forall>x\<in>set xs. \<not> P x \<Longrightarrow> find P (xs @ [y]) = (if P y then Some y else None)"
  by (induction xs) simp_all


lemma length_deactivate: "length (deactivateEventQRCodes e qs) = length qs"
  by (simp add: deactivateEventQRCodes_def)

lemma generateEventQR_success:
  assumes "generateEventQR p s now e h = Inr (g, s')"
  shows "g_qrData g = secureToken p e now"
    and "g_expiresAt g = now + h * 60 * 60 * 1000"
    and "qRCodes s' = deactivateEventQRCodes e (qRCodes s) @
           [\<lparr>qrCodeId = length (qRCodes s), qrEventId = e, qrData = secureToken p e now,
             qrType = ''secure'', expiresAt = now + h * 60 * 60 * 1000, qrIsActive = True,
             createdAt = now\<rparr>]"
    and "events s' = events s"
  using assms
  by (auto simp: generateEventQR_def Let_def length_deactivate
      split: option.splits if_splits)

lemma generateEventQR_succeeds:
  "events s e = Some ev \<Longrightarrow> isActive ev \<Longrightarrow>
     generateEventQR p s now e h =
       Inr (fst (projr (generateEventQR p s now e h)), storeAfter p s (now, GenerateEventQR e h))"
  by (simp add: generateEventQR_def storeAfter_def Let_def)


lemma findActiveQRCode_after_issue:
  assumes "generateEventQR p s now e h = Inr (g, s')"
  shows "findActiveQRCode s' e t =
     (if t = secureToken p e now
      then Some \<lparr>qrCodeId = length (qRCodes s), qrEventId = e, qrData = secureToken p e now,
             qrType = ''secure'', expiresAt = now + h * 60 * 60 * 1000, qrIsActive = True,
             createdAt = now\<rparr>
      else None)"
proof -
  have "\<forall>x\<in>set (deactivateEventQRCodes e (qRCodes s)).
      \<not> (qrEventId x = e \<and> qrData x = t \<and> qrIsActive x)"
    using deactivated_inactive by blast
  then show ?thesis
    unfolding findActiveQRCode_def generateEventQR_success(3) [OF assms]
    by (simp add: find_none_then)
qed














lemma demo_first_token:
  "g_qrData (fst (projr (generateEventQR demoPlatform demoStore 900 ''e1'' 1))) =
     ''event-checkin:e1:900:00ff''"
  by (simp add: generateEventQR_def Let_def demoStore_def demoEvent_def demo_secureToken)

lemma issuedOnce_eq:
  "issuedOnce = demoStore\<lparr>qRCodes :=
     [\<lparr>qrCodeId = 0, qrEventId = ''e1'', qrData = ''event-checkin:e1:900:00ff'',
       qrType = ''secure'', expiresAt = 3600900, qrIsActive = True, createdAt = 900\<rparr>]\<rparr>"
  by (simp add: issuedOnce_def storeAfter_def generateEventQR_def Let_def demoStore_def
      demoEvent_def demo_secureToken deactivateEventQRCodes_def)


section \<open>At most one active QR code\<close>




section \<open>Issue, then validate\<close>

text \<open>The token of an event whose id holds a colon is cut at that colon: its second
  segment is not the event's id, and validation fails \<open>EventMismatch\<close> in every store.\<close>

lemma colon_event_id_mismatch:
  assumes "CHR '':'' \<in> set e"
  shows "validateCheckinToken s now e (secureToken p e t) = Inl EventMismatch"
proof -
  from assms obtain a b where e: "e = a @ CHR '':'' # b" and a: "CHR '':'' \<notin> set a"
    by (auto dest: split_list_first)
  let ?h = "hmacSha256Hex p (qrSecret p) (secureData e t)"
  have tok: "secureToken p e t =
      ''event-checkin:'' @ a @ '':'' @ (b @ CHR '':'' # (numberToString t @ CHR '':'' # ?h))"
    by (simp add: secureToken_def secureData_def e)
  have parts: "split_on CHR '':'' (secureToken p e t) =
      ''event-checkin'' # a # split_on CHR '':'' b @ numberToString t # split_on CHR '':'' ?h"
    unfolding tok split_tagged [OF a]
    by (simp add: split_on_append split_on_free numberToString_plain)
  have "a \<noteq> e" using e by simp
  then show ?thesis
    by (simp add: validateCheckinToken_def parts Let_def split_on_nonempty)
qed

lemma validate_issued_result:
  assumes g: "generateEventQR p s now e h = Inr (g, s')"
    and plain: "CHR '':'' \<notin> set e"
    and ev: "events s e = Some ev"
  shows "validateCheckinToken s' now' e (g_qrData g) =
     (if now' > g_expiresAt g then Inl TokenExpired
      else if startDate ev > now' then Inl EventNotStarted
      else if endDate ev < now' then Inl EventEnded
      else Inr \<lparr>v_eventId = e, v_eventTitle = title ev, v_startDate = startDate ev,
          v_endDate = endDate ev, v_registrationRequired = registrationRequired ev,
          v_registrationDeadline = registrationDeadline ev, v_maxAttendees = maxAttendees ev,
          v_currentAttendees = currentAttendees ev, v_isValid = True,
          v_expiresAt = g_expiresAt g\<rparr>)"
proof -
  have act: "isActive ev"
    using g ev by (auto simp: generateEventQR_def split: if_splits)
  have tok: "g_qrData g = secureToken p e now" by (rule generateEventQR_success(1) [OF g])
  have ex: "g_expiresAt g = now + h * 60 * 60 * 1000" by (rule generateEventQR_success(2) [OF g])
  have ev': "events s' e = Some ev" using ev by (simp add: generateEventQR_success(4) [OF g])
  show ?thesis
    using act ev'
    by (simp add: validateCheckinToken_def tok ex split_secureToken [OF plain] Let_def
        split_on_nonempty findActiveQRCode_after_issue [OF g])
qed

lemma validate_other_token:
  assumes g: "generateEventQR p s now e h = Inr (g, s')" and ne: "t \<noteq> g_qrData g"
  shows "isl (validateCheckinToken s' now' e t)"
proof -
  have "findActiveQRCode s' e t = None"
    using ne by (simp add: findActiveQRCode_after_issue [OF g] generateEventQR_success(1) [OF g])
  then show ?thesis by (simp add: validateCheckinToken_def Let_def)
qed

text \<open>
  Claim C8, as amended. When a token is issued for an event whose id holds no colon, a
  \<open>ValidateToken\<close> with the same event id and the returned token, in the store the issue
  leaves, fails \<open>TokenExpired\<close> at a clock reading after the token's expiry; otherwise
  \<open>EventNotStarted\<close> at one before the event's start; otherwise \<open>EventEnded\<close> at one after
  the event's end; and otherwise succeeds, so at every clock reading within the event's time
  window and not after the token's expiry. In that store \<open>ValidateToken\<close> fails for every
  other string, so for the token with any byte of its signature altered.
\<close>

theorem issue_validate_roundtrip:
  "(generateEventQR p s now e h = Inr (g, s') \<and> CHR '':'' \<notin> set e \<and> events s e = Some ev
      \<longrightarrow> validateCheckinToken s' now' e (g_qrData g) =
           (if now' > g_expiresAt g then Inl TokenExpired
            else if startDate ev > now' then Inl EventNotStarted
            else if endDate ev < now' then Inl EventEnded
            else Inr \<lparr>v_eventId = e, v_eventTitle = title ev, v_startDate = startDate ev,
             v_endDate = endDate ev, v_registrationRequired = registrationRequired ev,
             v_registrationDeadline = registrationDeadline ev, v_maxAttendees = maxAttendees ev,
             v_currentAttendees = currentAttendees ev, v_isValid = True,
             v_expiresAt = g_expiresAt g\<rparr>))
   \<and> (generateEventQR p s now e h = Inr (g, s') \<and> t \<noteq> g_qrData g
      \<longrightarrow> isl (validateCheckinToken s' now'' e t))"
  using validate_issued_result validate_other_token by blast

text \<open>Issued at 1500, while the event runs: validated at once, after the event's end and
  after the token's expiry; issued at 900 and validated at once, before the start; and the
  last signature digit altered.\<close>

theorem issue_validate_roundtrip_witness:
  "\<not> isl (validateCheckinToken issuedRunning 1500 ''e1'' ''event-checkin:e1:1500:00ff'')
   \<and> validateCheckinToken issuedRunning 2001 ''e1'' ''event-checkin:e1:1500:00ff'' = Inl EventEnded
   \<and> validateCheckinToken issuedRunning 3601501 ''e1'' ''event-checkin:e1:1500:00ff''
        = Inl TokenExpired
   \<and> validateCheckinToken issuedOnce 900 ''e1'' ''event-checkin:e1:900:00ff'' = Inl EventNotStarted
   \<and> isl (validateCheckinToken issuedRunning 1500 ''e1'' ''event-checkin:e1:1500:00fe'')"
proof -
  have ev0: "events demoStore ''e1'' = Some demoEvent" by (simp add: demoStore_def)
  have act: "isActive demoEvent" by (simp add: demoEvent_def)
  have plain: "CHR '':'' \<notin> set ''e1''" by simp
  have g1: "generateEventQR demoPlatform demoStore 1500 ''e1'' 1 =
      Inr (fst (projr (generateEventQR demoPlatform demoStore 1500 ''e1'' 1)), issuedRunning)"
    unfolding issuedRunning_def by (rule generateEventQR_succeeds [OF ev0 act])
  have g0: "generateEventQR demoPlatform demoStore 900 ''e1'' 1 =
      Inr (fst (projr (generateEventQR demoPlatform demoStore 900 ''e1'' 1)), issuedOnce)"
    unfolding issuedOnce_def by (rule generateEventQR_succeeds [OF ev0 act])
  have tok: "g_qrData (fst (projr (generateEventQR demoPlatform demoStore 1500 ''e1'' 1))) =
      ''event-checkin:e1:1500:00ff''"
    by (simp add: generateEventQR_def Let_def demoStore_def demoEvent_def demo_secureToken_1500)
  have ex: "g_expiresAt (fst (projr (generateEventQR demoPlatform demoStore 1500 ''e1'' 1))) = 3601500"
    by (simp add: generateEventQR_def Let_def demoStore_def demoEvent_def)
  have ex0: "g_expiresAt (fst (projr (generateEventQR demoPlatform demoStore 900 ''e1'' 1))) = 3600900"
    by (simp add: generateEventQR_def Let_def demoStore_def demoEvent_def)
  have win: "startDate demoEvent = 1000" "endDate demoEvent = 2000"
    by (simp_all add: demoEvent_def)
  note t = issue_validate_roundtrip [where p = demoPlatform and s = demoStore and now = 1500
      and e = "''e1''" and h = 1 and s' = issuedRunning
      and g = "fst (projr (generateEventQR demoPlatform demoStore 1500 ''e1'' 1))"]
  note r = t [where ev = demoEvent, THEN conjunct1, THEN mp, OF conjI [OF g1 conjI [OF plain ev0]],
      unfolded tok ex win]
  have w1: "\<not> isl (validateCheckinToken issuedRunning 1500 ''e1'' ''event-checkin:e1:1500:00ff'')"
    using r [of 1500] by simp
  have w2: "validateCheckinToken issuedRunning 2001 ''e1'' ''event-checkin:e1:1500:00ff''
      = Inl EventEnded"
    using r [of 2001] by simp
  have w3: "validateCheckinToken issuedRunning 3601501 ''e1'' ''event-checkin:e1:1500:00ff''
      = Inl TokenExpired"
    using r [of 3601501] by simp
  have w4: "validateCheckinToken issuedOnce 900 ''e1'' ''event-checkin:e1:900:00ff''
      = Inl EventNotStarted"
    using issue_validate_roundtrip [where p = demoPlatform and s = demoStore and now = 900
      and e = "''e1''" and h = 1 and s' = issuedOnce and ev = demoEvent and now' = 900
      and g = "fst (projr (generateEventQR demoPlatform demoStore 900 ''e1'' 1))",
      THEN conjunct1, THEN mp, OF conjI [OF g0 conjI [OF plain ev0]],
      unfolded demo_first_token ex0 win]
    by simp
  have w5: "isl (validateCheckinToken issuedRunning 1500 ''e1'' ''event-checkin:e1:1500:00fe'')"
    using t [where t = "''event-checkin:e1:1500:00fe''" and now'' = 1500, THEN conjunct2] g1
    by (simp add: tok)
  from w1 w2 w3 w4 w5 show ?thesis by blast
qed


text \<open>A token issued at 900 for the event that starts at 1000 fails \<open>EventNotStarted\<close>
  when validated at once.\<close>

theorem validate_before_start_counterexample:
  "g_qrData (fst (projr (generateEventQR demoPlatform demoStore 900 ''e1'' 1))) =
     ''event-checkin:e1:900:00ff''
   \<and> \<not> isl (generateEventQR demoPlatform demoStore 900 ''e1'' 1)
   \<and> validateCheckinToken issuedOnce 900 ''e1'' ''event-checkin:e1:900:00ff'' = Inl EventNotStarted"
proof -
  have a: "validateCheckinToken issuedOnce 900 ''e1'' ''event-checkin:e1:900:00ff'' = Inl EventNotStarted"
    by (simp add: validateCheckinToken_def split_900 issuedOnce_eq findActiveQRCode_def
        demoStore_def demoEvent_def Let_def)
  have b: "\<not> isl (generateEventQR demoPlatform demoStore 900 ''e1'' 1)"
    by (simp add: generateEventQR_def Let_def demoStore_def demoEvent_def)
  from a b demo_first_token show ?thesis by blast
qed

section \<open>What the token consumers check\<close>






section \<open>Validation and the server secret\<close>

lemma validate_stored_token:
  assumes plain: "CHR '':'' \<notin> set e"
    and q: "findActiveQRCode s e (''event-checkin:'' @ e @ '':'' @ ts @ '':'' @ sg) = Some q"
    and ex: "now \<le> expiresAt q"
    and ev: "events s e = Some ev" "isActive ev" "startDate ev \<le> now" "now \<le> endDate ev"
  shows "\<not> isl (validateCheckinToken s now e (''event-checkin:'' @ e @ '':'' @ ts @ '':'' @ sg))"
proof -
  have "split_on CHR '':'' ts \<noteq> []" "split_on CHR '':'' sg \<noteq> []"
    by (rule split_on_nonempty)+
  then have len: "2 \<le> length (split_on CHR '':'' ts @ split_on CHR '':'' sg)"
    by (cases "split_on CHR '':'' ts"; cases "split_on CHR '':'' sg") auto
  show ?thesis
    unfolding validateCheckinToken_def split_with_signature [OF plain]
    using len q ex ev by (simp add: Let_def)
qed

text \<open>
  Claim C10. Validation never computes the keyed hash: \<open>ValidateToken\<close> and both QR
  check-ins give the same result under any two platforms (server secrets), the store, the
  clock and the token being the same; and a string of the token's form that is stored as
  an active row is accepted, whatever its signature segment, when the row is not expired
  and the event is active and running.
\<close>

theorem validation_ignores_secret:
  "handle p s now (ValidateCheckinToken e t) = handle p' s now (ValidateCheckinToken e t)
   \<and> handle p s now (CheckInWithToken e t u) = handle p' s now (CheckInWithToken e t u)
   \<and> handle p s now (ValidateAndCheckIn t u) = handle p' s now (ValidateAndCheckIn t u)
   \<and> (CHR '':'' \<notin> set e
        \<and> findActiveQRCode s e (''event-checkin:'' @ e @ '':'' @ ts @ '':'' @ sg) = Some q
        \<and> now \<le> expiresAt q \<and> events s e = Some ev \<and> isActive ev
        \<and> startDate ev \<le> now \<and> now \<le> endDate ev
      \<longrightarrow> \<not> isl (validateCheckinToken s now e (''event-checkin:'' @ e @ '':'' @ ts @ '':'' @ sg)))"
  using validate_stored_token by simp

text \<open>The stored token ends in \<open>ffff\<close>, the keyed hash of its payload is \<open>00ff\<close>, and the
  token is accepted.\<close>

theorem validation_ignores_secret_witness:
  "hmacSha256Hex demoPlatform (qrSecret demoPlatform) (secureData ''e1'' 1000) \<noteq> ''ffff''
   \<and> \<not> isl (validateCheckinToken forgedStore 1500 ''e1'' ''event-checkin:e1:1000:ffff'')"
proof -
  have f: "findActiveQRCode forgedStore ''e1'' (''event-checkin:'' @ ''e1'' @ '':'' @ ''1000'' @ '':'' @ ''ffff'')
      = Some \<lparr>qrCodeId = 0, qrEventId = ''e1'', qrData = ''event-checkin:e1:1000:ffff'',
         qrType = ''secure'', expiresAt = 5000, qrIsActive = True, createdAt = 1000\<rparr>"
    by (simp add: findActiveQRCode_def forgedStore_def)
  have ev: "events forgedStore ''e1'' = Some demoEvent"
    by (simp add: forgedStore_def demoStore_def)
  have "\<not> isl (validateCheckinToken forgedStore 1500 ''e1''
      (''event-checkin:'' @ ''e1'' @ '':'' @ ''1000'' @ '':'' @ ''ffff''))"
    using validation_ignores_secret [where s = forgedStore and now = 1500 and e = "''e1''"
        and ts = "''1000''" and sg = "''ffff''" and ev = demoEvent
        and q = "\<lparr>qrCodeId = 0, qrEventId = ''e1'', qrData = ''event-checkin:e1:1000:ffff'',
         qrType = ''secure'', expiresAt = 5000, qrIsActive = True, createdAt = 1000\<rparr>",
        THEN conjunct2, THEN conjunct2, THEN conjunct2] f ev
    by (simp add: demoEvent_def)
  then show ?thesis by (simp add: demoPlatform_def)
qed

end
